theory Spec2Isabelle
  imports Complex_Main
begin

section \<open>Numbers, errors and shared constants\<close>

text \<open>
  The rules are JavaScript. Its numbers are modelled as exact reals; the value NaN (and
  \<open>undefined\<close>, which every test of the code treats like NaN) is \<open>None\<close> of an option
  type wherever the code initialises a variable to NaN or tests \<open>isNaN\<close>. Rounding and the
  infinities of IEEE arithmetic are outside the model. A quotient of the model is the one
  of the code only when its divisor is not zero: the theorems assume that of their inputs,
  or a lemma next to them shows it for the states that the rules produce.

  A thrown exception is a value: \<open>TypeError\<close> for a property read on \<open>null\<close> or
  \<open>undefined\<close> and for a call of something that is not a function, \<open>ReferenceError\<close>
  for a read of an undeclared identifier or of a \<open>const\<close> before its declaration.
\<close>

datatype error = TypeError | ReferenceError

definition MINIMUM_BUFFER_S :: real where
  "MINIMUM_BUFFER_S = 10"

definition MINIMUM_BUFFER_PER_BITRATE_LEVEL_S :: real where
  "MINIMUM_BUFFER_PER_BITRATE_LEVEL_S = 2"

definition isNaN :: "'a option \<Rightarrow> bool" where
  "isNaN x = (x = None)"

text \<open>\<open>a >= b\<close> on numbers that may be NaN: false as soon as one side is NaN.\<close>

definition js_ge :: "real option \<Rightarrow> real option \<Rightarrow> bool" where
  "js_ge a b = (case a of None \<Rightarrow> False | Some x \<Rightarrow> (case b of None \<Rightarrow> False | Some y \<Rightarrow> x \<ge> y))"

section \<open>Utility model\<close>

text \<open>\<open>utilitiesFromBitrates\<close>: \<open>bitrates.map(b => Math.log(b))\<close>.\<close>

definition utilitiesFromBitrates :: "real list \<Rightarrow> real list" where
  "utilitiesFromBitrates bitrates = map ln bitrates"

text \<open>
  The normalisation of \<open>getInitialBolaState\<close>:
  \<open>utilities.map(u => u - utilities[0] + 1)\<close>. The callback only runs on a non-empty
  array, so \<open>utilities[0]\<close> is read only when it exists.
\<close>

definition normalize :: "real list \<Rightarrow> real list" where
  "normalize us = (case us of [] \<Rightarrow> [] | u0 # _ \<Rightarrow> map (\<lambda>u. u - u0 + 1) us)"

text \<open>
  \<open>utilities.reduce((highestIndex, u, uIndex) =>
       (u > utilities[highestIndex] ? uIndex : highestIndex), 0)\<close>:
  a left-to-right scan carrying the index of the largest utility seen so far; the third
  argument is the index \<open>uIndex\<close> of the element the callback is called on.
\<close>

fun highestIndexFrom :: "real list \<Rightarrow> nat \<Rightarrow> nat \<Rightarrow> real list \<Rightarrow> nat" where
  "highestIndexFrom utilities highestIndex uIndex [] = highestIndex"
| "highestIndexFrom utilities highestIndex uIndex (u # rest) =
     highestIndexFrom utilities
       (if u > utilities ! highestIndex then uIndex else highestIndex) (Suc uIndex) rest"

definition highestUtilityIndex :: "real list \<Rightarrow> nat" where
  "highestUtilityIndex utilities = highestIndexFrom utilities 0 0 utilities"

record bolaParams =
  params_gp :: real
  params_Vp :: real

text \<open>\<open>calculateBolaParameters\<close>, the same text in all four files; \<open>None\<close> is \<open>null\<close>.\<close>

definition calculateBolaParameters :: "real \<Rightarrow> real list \<Rightarrow> real list \<Rightarrow> bolaParams option" where
  "calculateBolaParameters stableBufferTime bitrates utilities =
     (let highestUtilityIndex = highestUtilityIndex utilities in
      if highestUtilityIndex = 0 then None
      else
        let bufferTime = max stableBufferTime
              (MINIMUM_BUFFER_S + MINIMUM_BUFFER_PER_BITRATE_LEVEL_S * real (length bitrates));
            gp = (utilities ! highestUtilityIndex - 1) / (bufferTime / MINIMUM_BUFFER_S - 1);
            Vp = MINIMUM_BUFFER_S / gp
        in Some \<lparr>params_gp = gp, params_Vp = Vp\<rparr>)"

section \<open>Track state\<close>

text \<open>
  The per-track control state, one field per property that \<open>getInitialBolaState\<close> and
  \<open>clearBolaStateOnSeek\<close> write. The seek bookkeeping fields hold NaN (\<open>None\<close>) when
  unknown. \<open>lastQuality\<close> receives the result of the quality selection, which is NaN on
  an empty ladder.
\<close>

record bolaState =
  bitrates :: "real list"
  utilities :: "real list"
  stableBufferTime :: real
  Vp :: real
  gp :: real
  lastQuality :: "nat option"
  placeholderBuffer :: real
  mostAdvancedSegmentStart :: "real option"
  lastSegmentWasReplacement :: bool
  lastSegmentStart :: "real option"
  lastSegmentDurationS :: "real option"
  lastSegmentRequestTimeMs :: "real option"
  lastSegmentFinishTimeMs :: "real option"

definition clearBolaStateOnSeek :: "bolaState \<Rightarrow> bolaState" where
  "clearBolaStateOnSeek bolaState =
     bolaState\<lparr>placeholderBuffer := 0,
               mostAdvancedSegmentStart := None,
               lastSegmentWasReplacement := False,
               lastSegmentStart := None,
               lastSegmentDurationS := None,
               lastSegmentRequestTimeMs := None,
               lastSegmentFinishTimeMs := None\<rparr>"

section \<open>Quality selection\<close>

text \<open>
  The score of ladder index \<open>i\<close> at the working level \<open>LABLevel\<close>:
  \<open>(bolaState.Vp * (bolaState.utilities[i] + bolaState.gp) - LABLevel) / bolaState.bitrates[i]\<close>.
  The loop only asks for \<open>i < bitrates.length\<close>; a read beyond the end of \<open>utilities\<close>
  is \<open>undefined\<close> and makes the score NaN, and so does a working level that is NaN.
\<close>

definition score_at :: "bolaState \<Rightarrow> real option \<Rightarrow> nat \<Rightarrow> real option" where
  "score_at bolaState LABLevel i =
     (case LABLevel of
        None \<Rightarrow> None
      | Some l \<Rightarrow>
          if i < length (utilities bolaState) \<and> i < length (bitrates bolaState)
          then Some ((Vp bolaState * (utilities bolaState ! i + gp bolaState) - l) / bitrates bolaState ! i)
          else None)"

text \<open>
  The body of the \<open>for\<close> loop, on the pair of the variables \<open>score\<close> and \<open>quality\<close>:
  \<open>if (isNaN(score) || s >= score) { score = s; quality = i; }\<close>.
\<close>

definition score_step :: "bolaState \<Rightarrow> real option \<Rightarrow> real option \<times> nat option \<Rightarrow> nat
    \<Rightarrow> real option \<times> nat option" where
  "score_step bolaState LABLevel sq i =
     (let s = score_at bolaState LABLevel i in
      if isNaN (fst sq) \<or> js_ge s (fst sq) then (s, Some i) else sq)"

text \<open>
  One scoring pass: \<open>score\<close> starts at NaN, \<open>quality\<close> keeps the value it had before
  the pass, and \<open>i\<close> runs over \<open>0 .. bitrateCount - 1\<close> in ascending order.
\<close>

definition scoring_pass :: "bolaState \<Rightarrow> real option \<Rightarrow> nat option \<Rightarrow> real option \<times> nat option" where
  "scoring_pass bolaState LABLevel quality =
     foldl (score_step bolaState LABLevel) (None, quality) [0 ..< length (bitrates bolaState)]"

text \<open>
  The variables of the \<open>while\<close> loop. \<open>iterations\<close> is not a variable of the code: it
  counts the executions of the loop body (the lines \<open>while loop...\<close> that the rule logs).
\<close>

record labLoop =
  quality :: "nat option"
  bitrate :: "real option"
  prev_bitrate :: "real option"
  LABLevel :: "real option"
  maxIte :: int
  iterations :: nat

text \<open>
  \<open>bolaState.bitrates[quality]\<close>: \<open>undefined\<close> when \<open>quality\<close> is NaN.
  \<open>bufferLevel + (1 - bitrate / throughput / 1000) * segmentDuration\<close>: NaN when
  \<open>bitrate\<close> is \<open>undefined\<close>.
\<close>

definition bitrate_of :: "bolaState \<Rightarrow> nat option \<Rightarrow> real option" where
  "bitrate_of bolaState q =
     (case q of None \<Rightarrow> None
      | Some i \<Rightarrow> if i < length (bitrates bolaState) then Some (bitrates bolaState ! i) else None)"

definition project_level :: "real \<Rightarrow> real \<Rightarrow> real \<Rightarrow> real option \<Rightarrow> real option" where
  "project_level bufferLevel throughput segmentDuration b =
     (case b of None \<Rightarrow> None
      | Some r \<Rightarrow> Some (bufferLevel + (1 - r / throughput / 1000) * segmentDuration))"

text \<open>The loop body up to and including \<open>maxIte = maxIte - 1\<close>.\<close>

definition lab_body :: "bolaState \<Rightarrow> real \<Rightarrow> real \<Rightarrow> real \<Rightarrow> labLoop \<Rightarrow> labLoop" where
  "lab_body bolaState bufferLevel throughput segmentDuration v =
     (let q = snd (scoring_pass bolaState (LABLevel v) (quality v));
          b = bitrate_of bolaState q
      in \<lparr>quality = q,
          bitrate = b,
          prev_bitrate = bitrate v,
          LABLevel = project_level bufferLevel throughput segmentDuration b,
          maxIte = maxIte v - 1,
          iterations = Suc (iterations v)\<rparr>)"

text \<open>
  The loop condition \<open>isNaN(bitrate) || bitrate != prev_bitrate\<close>: two numbers differ
  when they are different reals, and NaN differs from everything.
\<close>

definition lab_continue :: "labLoop \<Rightarrow> bool" where
  "lab_continue v = (isNaN (bitrate v) \<or> bitrate v \<noteq> prev_bitrate v)"

text \<open>
  The \<open>while\<close> loop of \<open>getQualityFromBufferLevel\<close> with its \<open>break\<close> on
  \<open>maxIte < 0\<close> (the switch rule and the abandon rule have the same text).
\<close>

function lab_while :: "bolaState \<Rightarrow> real \<Rightarrow> real \<Rightarrow> real \<Rightarrow> labLoop \<Rightarrow> labLoop" where
  "lab_while bolaState bufferLevel throughput segmentDuration v =
     (if lab_continue v then
        (let v' = lab_body bolaState bufferLevel throughput segmentDuration v in
         if maxIte v' < 0 then v'
         else lab_while bolaState bufferLevel throughput segmentDuration v')
      else v)"
  by pat_completeness auto
termination
  by (relation "measure (\<lambda>(bolaState, bufferLevel, throughput, segmentDuration, v). nat (maxIte v + 1))")
     (auto simp: lab_body_def Let_def)

declare lab_while.simps [simp del]

definition lab_init :: "bolaState \<Rightarrow> real \<Rightarrow> labLoop" where
  "lab_init bolaState bufferLevel =
     \<lparr>quality = None, bitrate = None, prev_bitrate = None, LABLevel = Some bufferLevel,
      maxIte = int (length (bitrates bolaState)), iterations = 0\<rparr>"

definition lab_run :: "bolaState \<Rightarrow> real \<Rightarrow> real \<Rightarrow> real \<Rightarrow> labLoop" where
  "lab_run bolaState bufferLevel throughput segmentDuration =
     lab_while bolaState bufferLevel throughput segmentDuration (lab_init bolaState bufferLevel)"

definition getQualityFromBufferLevel :: "bolaState \<Rightarrow> real \<Rightarrow> real \<Rightarrow> real \<Rightarrow> nat option" where
  "getQualityFromBufferLevel bolaState bufferLevel throughput segmentDuration =
     quality (lab_run bolaState bufferLevel throughput segmentDuration)"

section \<open>Collaborators\<close>

text \<open>
  The rules read the player through \<open>config.dashMetrics\<close>, \<open>config.mediaPlayerModel\<close>
  and the rules context; none of these is part of the sources, so what they return is a
  parameter of the model. A property of the rules context is \<open>None\<close> when the context
  does not have it, and otherwise holds what the call returns. \<open>getStreamInfo\<close> may
  return \<open>null\<close>; a request index is a number or NaN; \<open>firstByteDate\<close> is \<open>null\<close>
  or a date, kept as its \<open>getTime()\<close> in milliseconds.
\<close>

type_synonym mediaType = string

record dashConfig =
  getCurrentBufferLevel :: "mediaType \<Rightarrow> real"
  getStableBufferTime :: real

record mediaInfo =
  bitrateList :: "real list"

record streamInfo =
  stream_id :: string
  isDynamic :: bool

record representationInfo =
  fragmentDuration :: real
  quality_rep :: nat

record request =
  index :: "nat option"
  firstByteDate :: "real option"
  duration :: real
  bytesTotal_req :: real
  bytesLoaded_req :: real

record abrController =
  getAverageThroughput :: "mediaType \<Rightarrow> bool \<Rightarrow> real option"
  getAverageLatency :: "mediaType \<Rightarrow> real option"

record rulesContext =
  getMediaInfo :: "mediaInfo option"
  getMediaType :: "mediaType option"
  getScheduleController :: "unit option"
  getStreamInfo :: "streamInfo option option"
  getAbrController :: "abrController option"
  useBufferOccupancyABR :: "bool option"
  getRepresentationInfo :: "representationInfo option"
  getCurrentRequest :: "request option"

datatype switch_quality = NO_CHANGE | Quality "nat option"

datatype switch_priority = DEFAULT | STRONG

record switchReason =
  reason_throughput :: "real option"
  reason_latency :: "real option"
  reason_bufferLevel :: "real option"
  reason_placeholderBuffer :: "real option"

record switchRequest =
  quality_req :: switch_quality
  priority :: switch_priority
  reason :: "switchReason option"

definition empty_reason :: switchReason where
  "empty_reason = \<lparr>reason_throughput = None, reason_latency = None,
                    reason_bufferLevel = None, reason_placeholderBuffer = None\<rparr>"

text \<open>
  Modelled from the spec: \<open>SwitchRequest(context).create()\<close>, whose source file is not
  among the sources. The decision record carries the chosen quality index or the sentinel
  for no change, a priority that is DEFAULT or STRONG, and a bag of diagnostics; a fresh one
  asks for no change at DEFAULT priority. \<open>create()\<close> leaves the bag unset, and
  \<open>create(NO_CHANGE, {name: ...})\<close> of the abandon rule starts it with the rule's name
  only.
\<close>

definition SwitchRequest_create :: switchRequest where
  "SwitchRequest_create = \<lparr>quality_req = NO_CHANGE, priority = DEFAULT, reason = None\<rparr>"

definition SwitchRequest_create_named :: switchRequest where
  "SwitchRequest_create_named =
     \<lparr>quality_req = NO_CHANGE, priority = DEFAULT, reason = Some empty_reason\<rparr>"

section \<open>The switch rule\<close>

text \<open>
  The switch rule is the \<open>BolaRule\<close> of \<open>src/unnamed/part_000\<close>. Its
  \<open>getInitialBolaState\<close> reads \<open>params.Vp\<close> without a test, so a \<open>null\<close>
  from \<open>calculateBolaParameters\<close> is a TypeError. The fields that
  \<open>clearBolaStateOnSeek\<close> writes do not exist before that call; the record gives them
  the values it then overwrites.
\<close>

definition getInitialBolaState :: "dashConfig \<Rightarrow> rulesContext \<Rightarrow> error + bolaState" where
  "getInitialBolaState config rulesContext =
     (case getMediaInfo rulesContext of
        None \<Rightarrow> Inl TypeError
      | Some mediaInfo \<Rightarrow>
          let bitrates = bitrateList mediaInfo;
              utilities = normalize (utilitiesFromBitrates bitrates);
              stableBufferTime = getStableBufferTime config
          in (case calculateBolaParameters stableBufferTime bitrates utilities of
                None \<Rightarrow> Inl TypeError
              | Some params \<Rightarrow>
                  Inr (clearBolaStateOnSeek
                        \<lparr>bitrates = bitrates,
                         utilities = utilities,
                         stableBufferTime = stableBufferTime,
                         Vp = params_Vp params,
                         gp = params_gp params,
                         lastQuality = Some 0,
                         placeholderBuffer = 0,
                         mostAdvancedSegmentStart = None,
                         lastSegmentWasReplacement = False,
                         lastSegmentStart = None,
                         lastSegmentDurationS = None,
                         lastSegmentRequestTimeMs = None,
                         lastSegmentFinishTimeMs = None\<rparr>)))"

text \<open>\<open>getBolaState\<close> of the switch rule: the state of the track, created on first use.\<close>

definition getBolaState :: "dashConfig \<Rightarrow> (mediaType \<rightharpoonup> bolaState) \<Rightarrow> rulesContext
    \<Rightarrow> error + (bolaState \<times> (mediaType \<rightharpoonup> bolaState))" where
  "getBolaState config bolaStateDict rulesContext =
     (case getMediaType rulesContext of
        None \<Rightarrow> Inl TypeError
      | Some mediaType \<Rightarrow>
          (case bolaStateDict mediaType of
             Some bolaState \<Rightarrow> Inr (bolaState, bolaStateDict)
           | None \<Rightarrow>
               (case getInitialBolaState config rulesContext of
                  Inl e \<Rightarrow> Inl e
                | Inr bolaState \<Rightarrow> Inr (bolaState, bolaStateDict(mediaType \<mapsto> bolaState)))))"

text \<open>
  \<open>getMaxIndex\<close> of the switch rule. The guard tests six properties of the context;
  \<open>getRepresentationInfo\<close> is called without a test. The call
  \<open>scheduleController.setTimeToLoadDelay(0)\<close> changes no state of the rule and is left
  out. The result is the dictionary of track states after the call together with the
  exception or the decision.

  Past the test of the throughput the rule selects the quality, writes it and the
  diagnostics to the decision, and then reads \<open>switchRequest.PRIORITY.STRONG\<close> on the
  decision itself. The priorities are a property of the \<open>SwitchRequest\<close> factory,
  where the abandon rule and the sample rules read them; the decision has no
  \<open>PRIORITY\<close>, so the read is a TypeError. The decision written so far is lost with
  it, and the assignment of \<open>lastQuality\<close> that follows never runs.
\<close>

definition getMaxIndex :: "dashConfig \<Rightarrow> (mediaType \<rightharpoonup> bolaState) \<Rightarrow> rulesContext option
    \<Rightarrow> (mediaType \<rightharpoonup> bolaState) \<times> (error + switchRequest)" where
  "getMaxIndex config bolaStateDict rulesContext =
     (let switchRequest = SwitchRequest_create in
      case rulesContext of
        None \<Rightarrow> (bolaStateDict, Inr switchRequest)
      | Some ctx \<Rightarrow>
          (case (getMediaInfo ctx, getMediaType ctx, getScheduleController ctx,
                 getStreamInfo ctx, getAbrController ctx, useBufferOccupancyABR ctx) of
             (Some mediaInfo, Some mediaType, Some scheduleController,
              Some streamInfo, Some abrController, Some useBufferOccupancy) \<Rightarrow>
               (case getRepresentationInfo ctx of
                  None \<Rightarrow> (bolaStateDict, Inl TypeError)
                | Some representationInfo \<Rightarrow>
                    let dynamic = (case streamInfo of None \<Rightarrow> False | Some si \<Rightarrow> isDynamic si);
                        segmentDuration = fragmentDuration representationInfo;
                        r = (case reason switchRequest of None \<Rightarrow> empty_reason | Some r \<Rightarrow> r)
                    in if \<not> useBufferOccupancy
                       then (bolaStateDict, Inr (switchRequest\<lparr>reason := Some r\<rparr>))
                       else
                         (case getBolaState config bolaStateDict ctx of
                            Inl e \<Rightarrow> (bolaStateDict, Inl e)
                          | Inr (bolaState, dict) \<Rightarrow>
                              let bufferLevel = getCurrentBufferLevel config mediaType;
                                  throughput = getAverageThroughput abrController mediaType dynamic;
                                  latency = getAverageLatency abrController mediaType;
                                  r = r\<lparr>reason_throughput := throughput, reason_latency := latency\<rparr>
                              in (case throughput of
                                    None \<Rightarrow> (dict, Inr (switchRequest\<lparr>reason := Some r\<rparr>))
                                  | Some t \<Rightarrow>
                                      let quality = getQualityFromBufferLevel bolaState bufferLevel t segmentDuration;
                                          decision = switchRequest
                                            \<lparr>quality_req := Quality quality,
                                             reason := Some (r\<lparr>reason_bufferLevel := Some bufferLevel,
                                                 reason_placeholderBuffer := Some (placeholderBuffer bolaState)\<rparr>)\<rparr>
                                      in (dict, Inl TypeError))))
           | _ \<Rightarrow> (bolaStateDict, Inr switchRequest)))"

section \<open>The sample rules\<close>

text \<open>
  The sample rules are \<open>LABRule.js\<close> of the reference player and
  \<open>src/unnamed/part_001\<close>. Their \<open>getQualityFromBufferLevel\<close> names its parameter \<open>state\<close>
  and reads \<open>bolaState.Vp\<close> in the score: there is no \<open>bolaState\<close> in scope, so the
  first score is a ReferenceError. On an empty ladder no score is computed: the body
  reads \<open>state.bitrates[quality]\<close> and projects the level, and there is no \<open>maxIte\<close>.
  A loop that does not end has the value \<open>None\<close>.
\<close>

definition sample_body :: "bolaState \<Rightarrow> real \<Rightarrow> real \<Rightarrow> real \<Rightarrow> labLoop \<Rightarrow> labLoop" where
  "sample_body state bufferLevel throughput segmentDuration v =
     (let b = bitrate_of state (quality v)
      in \<lparr>quality = quality v,
          bitrate = b,
          prev_bitrate = bitrate v,
          LABLevel = project_level bufferLevel throughput segmentDuration b,
          maxIte = maxIte v,
          iterations = Suc (iterations v)\<rparr>)"

partial_function (option) sample_while ::
    "bolaState \<Rightarrow> real \<Rightarrow> real \<Rightarrow> real \<Rightarrow> labLoop \<Rightarrow> (error + labLoop) option" where
  "sample_while state bufferLevel throughput segmentDuration v =
     (if lab_continue v then
        (if bitrates state \<noteq> [] then Some (Inl ReferenceError)
         else sample_while state bufferLevel throughput segmentDuration
                (sample_body state bufferLevel throughput segmentDuration v))
      else Some (Inr v))"

definition getQualityFromBufferLevel_sample ::
    "bolaState \<Rightarrow> real \<Rightarrow> real \<Rightarrow> real \<Rightarrow> (error + nat option) option" where
  "getQualityFromBufferLevel_sample state bufferLevel throughput segmentDuration =
     (case sample_while state bufferLevel throughput segmentDuration (lab_init state bufferLevel) of
        None \<Rightarrow> None
      | Some (Inl e) \<Rightarrow> Some (Inl e)
      | Some (Inr v) \<Rightarrow> Some (Inr (quality v)))"

section \<open>The abandon rule\<close>

text \<open>
  The track state of the abandon rule carries the tag \<open>state\<close>. An object tagged
  \<open>BOLA_STATE_ONE_BITRATE\<close> has no other property; one tagged \<open>BOLA_STATE_STARTUP\<close>
  has those of \<open>bolaState\<close>.
\<close>

datatype taggedBolaState = BOLA_STATE_ONE_BITRATE | BOLA_STATE_STARTUP bolaState

text \<open>
  The progress record of one request starts as the empty object: a property that was
  never written is \<open>undefined\<close> (\<open>None\<close>). \<open>estimatedTimeOfDownload\<close> is also
  \<open>None\<close> when it is not a finite number (a measured bandwidth of 0).
\<close>

record fragmentInfo =
  firstByteTime :: "real option"
  segmentDuration_frag :: "real option"
  bytesTotal :: "real option"
  fragment_id :: "nat option"
  bytesLoaded :: "real option"
  elapsedTime :: "real option"
  measuredBandwidthInKbps :: "real option"
  estimatedTimeOfDownload :: "real option"

definition empty_fragmentInfo :: fragmentInfo where
  "empty_fragmentInfo =
     \<lparr>firstByteTime = None, segmentDuration_frag = None, bytesTotal = None, fragment_id = None,
      bytesLoaded = None, elapsedTime = None, measuredBandwidthInKbps = None,
      estimatedTimeOfDownload = None\<rparr>"

text \<open>
  The variables of the rule's closure. \<open>bolaStateDict\<close> is declared and never assigned
  in this file: it is \<open>undefined\<close> (\<open>None\<close>) after \<open>setup\<close> and after every
  \<open>reset\<close>.
\<close>

record abandonRule =
  fragmentDict :: "mediaType \<rightharpoonup> (nat \<rightharpoonup> fragmentInfo)"
  abandonDict :: "nat \<rightharpoonup> fragmentInfo"
  bolaStateDict :: "(mediaType \<rightharpoonup> taggedBolaState) option"
  throughputArray :: "mediaType \<rightharpoonup> real list"

definition ABANDON_MULTIPLIER :: real where
  "ABANDON_MULTIPLIER = 18 / 10"

definition GRACE_TIME_THRESHOLD :: real where
  "GRACE_TIME_THRESHOLD = 500"

definition MIN_LENGTH_TO_AVERAGE :: nat where
  "MIN_LENGTH_TO_AVERAGE = 5"

definition reset :: "abandonRule \<Rightarrow> abandonRule" where
  "reset rule = rule\<lparr>fragmentDict := Map.empty, abandonDict := Map.empty, throughputArray := Map.empty\<rparr>"

text \<open>The rule as \<open>setup\<close> leaves it: every variable declared, then \<open>reset\<close>.\<close>

definition initial_rule :: abandonRule where
  "initial_rule =
     reset \<lparr>fragmentDict = Map.empty, abandonDict = Map.empty, bolaStateDict = None,
            throughputArray = Map.empty\<rparr>"

text \<open>\<open>a < b\<close> on numbers that may be NaN or \<open>undefined\<close>.\<close>

definition js_lt :: "real option \<Rightarrow> real option \<Rightarrow> bool" where
  "js_lt a b = (case a of None \<Rightarrow> False | Some x \<Rightarrow> (case b of None \<Rightarrow> False | Some y \<Rightarrow> x < y))"

text \<open>
  \<open>Math.round\<close> rounds to the nearest integer, halves upwards. \<open>+x.toFixed(2)\<close>
  rounds to two decimals, halves away from zero.
\<close>

definition js_round :: "real \<Rightarrow> real" where
  "js_round x = of_int \<lfloor>x + 1 / 2\<rfloor>"

definition toFixed2 :: "real \<Rightarrow> real" where
  "toFixed2 x = (if x < 0 then - (of_int \<lfloor>- x * 100 + 1 / 2\<rfloor> / 100) else of_int \<lfloor>x * 100 + 1 / 2\<rfloor> / 100)"

text \<open>
  \<open>fragmentDict[type][id]\<close>: the read, the write of a changed progress record (the code
  changes the object in place), and \<open>delete fragmentDict[type][id]\<close>, where an
  \<open>undefined\<close> id names no entry.
\<close>

definition lookup_fragment :: "abandonRule \<Rightarrow> mediaType \<Rightarrow> nat \<Rightarrow> fragmentInfo" where
  "lookup_fragment rule type i =
     (case fragmentDict rule type of
        None \<Rightarrow> empty_fragmentInfo
      | Some m \<Rightarrow> (case m i of None \<Rightarrow> empty_fragmentInfo | Some f \<Rightarrow> f))"

definition put_fragment :: "abandonRule \<Rightarrow> mediaType \<Rightarrow> nat \<Rightarrow> fragmentInfo \<Rightarrow> abandonRule" where
  "put_fragment rule type i f =
     rule\<lparr>fragmentDict := (fragmentDict rule)
        (type \<mapsto> (case fragmentDict rule type of None \<Rightarrow> Map.empty | Some m \<Rightarrow> m)(i \<mapsto> f))\<rparr>"

definition delete_fragment :: "abandonRule \<Rightarrow> mediaType \<Rightarrow> nat option \<Rightarrow> abandonRule" where
  "delete_fragment rule type k =
     (case k of
        None \<Rightarrow> rule
      | Some i \<Rightarrow>
          (case fragmentDict rule type of
             None \<Rightarrow> rule
           | Some m \<Rightarrow> rule\<lparr>fragmentDict := (fragmentDict rule)(type \<mapsto> m(i := None))\<rparr>))"

text \<open>\<open>abandonDict.hasOwnProperty(fragmentInfo.id)\<close>.\<close>

definition is_abandoned :: "abandonRule \<Rightarrow> nat option \<Rightarrow> bool" where
  "is_abandoned rule k = (case k of None \<Rightarrow> False | Some i \<Rightarrow> abandonDict rule i \<noteq> None)"

definition setFragmentRequestDict :: "abandonRule \<Rightarrow> mediaType \<Rightarrow> nat \<Rightarrow> abandonRule" where
  "setFragmentRequestDict rule type i = put_fragment rule type i (lookup_fragment rule type i)"

definition storeLastRequestThroughputByType :: "abandonRule \<Rightarrow> mediaType \<Rightarrow> real \<Rightarrow> abandonRule" where
  "storeLastRequestThroughputByType rule type throughput =
     rule\<lparr>throughputArray := (throughputArray rule)
        (type \<mapsto> (case throughputArray rule type of None \<Rightarrow> [] | Some a \<Rightarrow> a) @ [throughput])\<rparr>"

text \<open>
  \<open>getInitialBolaState\<close> of the abandon rule tests \<open>params\<close>: a \<open>null\<close> gives the
  state tagged \<open>BOLA_STATE_ONE_BITRATE\<close>.
\<close>

definition getInitialBolaState_abandon :: "dashConfig \<Rightarrow> rulesContext \<Rightarrow> error + taggedBolaState" where
  "getInitialBolaState_abandon config rulesContext =
     (case getMediaInfo rulesContext of
        None \<Rightarrow> Inl TypeError
      | Some mediaInfo \<Rightarrow>
          let bitrates = bitrateList mediaInfo;
              utilities = normalize (utilitiesFromBitrates bitrates);
              stableBufferTime = getStableBufferTime config
          in (case calculateBolaParameters stableBufferTime bitrates utilities of
                None \<Rightarrow> Inr BOLA_STATE_ONE_BITRATE
              | Some params \<Rightarrow>
                  Inr (BOLA_STATE_STARTUP (clearBolaStateOnSeek
                        \<lparr>bitrates = bitrates,
                         utilities = utilities,
                         stableBufferTime = stableBufferTime,
                         Vp = params_Vp params,
                         gp = params_gp params,
                         lastQuality = Some 0,
                         placeholderBuffer = 0,
                         mostAdvancedSegmentStart = None,
                         lastSegmentWasReplacement = False,
                         lastSegmentStart = None,
                         lastSegmentDurationS = None,
                         lastSegmentRequestTimeMs = None,
                         lastSegmentFinishTimeMs = None\<rparr>))))"

text \<open>
  \<open>checkBolaStateStableBufferTime\<close>, the retarget operation. \<open>params.Vp\<close> is read
  without a test, so a \<open>null\<close> from \<open>calculateBolaParameters\<close> is a TypeError.
\<close>

definition checkBolaStateStableBufferTime :: "dashConfig \<Rightarrow> bolaState \<Rightarrow> mediaType \<Rightarrow> error + bolaState" where
  "checkBolaStateStableBufferTime config bolaState mediaType =
     (let configured = getStableBufferTime config in
      if stableBufferTime bolaState \<noteq> configured then
        (case calculateBolaParameters configured (bitrates bolaState) (utilities bolaState) of
           None \<Rightarrow> Inl TypeError
         | Some params \<Rightarrow>
             if params_Vp params \<noteq> Vp bolaState \<or> params_gp params \<noteq> gp bolaState then
               let bufferLevel = getCurrentBufferLevel config mediaType;
                   effectiveBufferLevel = bufferLevel + placeholderBuffer bolaState;
                   effectiveBufferLevel = effectiveBufferLevel - MINIMUM_BUFFER_S;
                   effectiveBufferLevel = effectiveBufferLevel * (params_Vp params / Vp bolaState);
                   effectiveBufferLevel = effectiveBufferLevel + MINIMUM_BUFFER_S
               in Inr (bolaState\<lparr>stableBufferTime := configured,
                                  Vp := params_Vp params,
                                  gp := params_gp params,
                                  placeholderBuffer := max 0 (effectiveBufferLevel - bufferLevel)\<rparr>)
             else Inr bolaState)
      else Inr bolaState)"

text \<open>
  \<open>getBolaState\<close> of the abandon rule. The read \<open>bolaStateDict[mediaType]\<close> is a
  TypeError while \<open>bolaStateDict\<close> is \<open>undefined\<close>.
\<close>

definition getBolaState_abandon :: "dashConfig \<Rightarrow> abandonRule \<Rightarrow> rulesContext
    \<Rightarrow> error + (taggedBolaState \<times> abandonRule)" where
  "getBolaState_abandon config rule rulesContext =
     (case getMediaType rulesContext of
        None \<Rightarrow> Inl TypeError
      | Some mediaType \<Rightarrow>
          (case bolaStateDict rule of
             None \<Rightarrow> Inl TypeError
           | Some dict \<Rightarrow>
               (case dict mediaType of
                  None \<Rightarrow>
                    (case getInitialBolaState_abandon config rulesContext of
                       Inl e \<Rightarrow> Inl e
                     | Inr s \<Rightarrow> Inr (s, rule\<lparr>bolaStateDict := Some (dict(mediaType \<mapsto> s))\<rparr>))
                | Some BOLA_STATE_ONE_BITRATE \<Rightarrow> Inr (BOLA_STATE_ONE_BITRATE, rule)
                | Some (BOLA_STATE_STARTUP s) \<Rightarrow>
                    (case checkBolaStateStableBufferTime config s mediaType of
                       Inl e \<Rightarrow> Inl e
                     | Inr s' \<Rightarrow>
                         Inr (BOLA_STATE_STARTUP s',
                              rule\<lparr>bolaStateDict := Some (dict(mediaType \<mapsto> BOLA_STATE_STARTUP s'))\<rparr>)))))"

text \<open>
  The evaluation of an abandonment, the block under the test of the sample count, the
  grace time and the bytes still missing. \<open>measuredBandwidthInKbps\<close> and
  \<open>estimatedTimeOfDownload\<close> are written to the progress record of the request. In the
  branch that would abandon, \<open>getBolaState\<close> is called first; the next statement reads
  \<open>segmentDuration\<close>, a \<open>const\<close> of the same block that is declared three lines
  further down, which is a ReferenceError. The statements after it never run.
\<close>

definition shouldAbandon_evaluate :: "dashConfig \<Rightarrow> abandonRule \<Rightarrow> rulesContext \<Rightarrow> mediaType \<Rightarrow> nat
    \<Rightarrow> representationInfo \<Rightarrow> fragmentInfo \<Rightarrow> real list \<Rightarrow> switchRequest
    \<Rightarrow> abandonRule \<times> (error + switchRequest)" where
  "shouldAbandon_evaluate config rule ctx mediaType i representationInfo fragmentInfo samples switchRequest =
     (let totalSampledValue = foldl (+) 0 samples;
          measured = js_round (totalSampledValue / real (length samples));
          estimated = (case bytesTotal fragmentInfo of
                         None \<Rightarrow> None
                       | Some totalBytes \<Rightarrow>
                           if measured = 0 then None
                           else Some (toFixed2 ((totalBytes * 8 / measured) / 1000)));
          fragmentInfo = fragmentInfo\<lparr>measuredBandwidthInKbps := Some measured,
                                      estimatedTimeOfDownload := estimated\<rparr>;
          rule = put_fragment rule mediaType i fragmentInfo
      in if js_lt estimated (map_option (\<lambda>d. d * ABANDON_MULTIPLIER) (segmentDuration_frag fragmentInfo))
            \<or> quality_rep representationInfo = 0
         then (rule, Inr switchRequest)
         else if \<not> is_abandoned rule (fragment_id fragmentInfo) then
           (case getBolaState_abandon config rule ctx of
              Inl e \<Rightarrow> (rule, Inl e)
            | Inr (bolaState, rule') \<Rightarrow> (rule', Inl ReferenceError))
         else (rule, Inr switchRequest))"

text \<open>
  The body of \<open>if (!isNaN(req.index))\<close>, for the request index \<open>i\<close> and the time
  \<open>now\<close> that \<open>new Date().getTime()\<close> returns.
\<close>

definition shouldAbandon_progress :: "dashConfig \<Rightarrow> real \<Rightarrow> abandonRule \<Rightarrow> rulesContext \<Rightarrow> mediaType
    \<Rightarrow> request \<Rightarrow> nat \<Rightarrow> representationInfo \<Rightarrow> switchRequest
    \<Rightarrow> abandonRule \<times> (error + switchRequest)" where
  "shouldAbandon_progress config now rule0 ctx mediaType req i representationInfo switchRequest =
     (let rule = setFragmentRequestDict rule0 mediaType i;
          fragmentInfo = lookup_fragment rule mediaType i
      in case firstByteDate req of
           None \<Rightarrow> (rule, Inr switchRequest)
         | Some firstByte \<Rightarrow>
             if is_abandoned rule (fragment_id fragmentInfo) then (rule, Inr switchRequest)
             else
               let first = (firstByteTime fragmentInfo = None);
                   rule = (if first then rule\<lparr>throughputArray := (throughputArray rule)(mediaType \<mapsto> [])\<rparr>
                           else rule);
                   fragmentInfo =
                     (if first
                      then fragmentInfo\<lparr>firstByteTime := Some firstByte,
                                        segmentDuration_frag := Some (duration req),
                                        bytesTotal := Some (bytesTotal_req req),
                                        fragment_id := Some i\<rparr>
                      else fragmentInfo);
                   elapsed = now - (case firstByteTime fragmentInfo of None \<Rightarrow> firstByte | Some t \<Rightarrow> t);
                   fragmentInfo = fragmentInfo\<lparr>bytesLoaded := Some (bytesLoaded_req req),
                                               elapsedTime := Some elapsed\<rparr>;
                   rule = put_fragment rule mediaType i fragmentInfo;
                   rule = (if bytesLoaded_req req > 0 \<and> elapsed > 0
                           then storeLastRequestThroughputByType rule mediaType
                                  (js_round (bytesLoaded_req req * 8 / elapsed))
                           else rule)
               in (case throughputArray rule mediaType of
                     None \<Rightarrow> (rule, Inl TypeError)
                   | Some samples \<Rightarrow>
                       if length samples \<ge> MIN_LENGTH_TO_AVERAGE \<and> elapsed > GRACE_TIME_THRESHOLD \<and>
                          js_lt (bytesLoaded fragmentInfo) (bytesTotal fragmentInfo)
                       then shouldAbandon_evaluate config rule ctx mediaType i representationInfo
                              fragmentInfo samples switchRequest
                       else if bytesLoaded fragmentInfo = bytesTotal fragmentInfo
                       then (delete_fragment rule mediaType (fragment_id fragmentInfo), Inr switchRequest)
                       else (rule, Inr switchRequest)))"

text \<open>
  \<open>shouldAbandon\<close>. The guard tests five properties of the context; \<open>getStreamInfo\<close>
  is called without a test.
\<close>

definition shouldAbandon :: "dashConfig \<Rightarrow> real \<Rightarrow> abandonRule \<Rightarrow> rulesContext option
    \<Rightarrow> abandonRule \<times> (error + switchRequest)" where
  "shouldAbandon config now rule rulesContext =
     (let switchRequest = SwitchRequest_create_named in
      case rulesContext of
        None \<Rightarrow> (rule, Inr switchRequest)
      | Some ctx \<Rightarrow>
          (case (getMediaInfo ctx, getMediaType ctx, getCurrentRequest ctx,
                 getRepresentationInfo ctx, getAbrController ctx) of
             (Some mediaInfo, Some mediaType, Some req, Some representationInfo, Some abrController) \<Rightarrow>
               (case getStreamInfo ctx of
                  None \<Rightarrow> (rule, Inl TypeError)
                | Some streamInfo \<Rightarrow>
                    (case index req of
                       None \<Rightarrow> (rule, Inr switchRequest)
                     | Some i \<Rightarrow>
                         shouldAbandon_progress config now rule ctx mediaType req i
                           representationInfo switchRequest))
           | _ \<Rightarrow> (rule, Inr switchRequest)))"

text \<open>
  A sequence of progress notifications, each with the time at which it arrives. The rule
  keeps what a call has written also when the call ends in an exception.
\<close>

fun notifications :: "dashConfig \<Rightarrow> abandonRule \<Rightarrow> (real \<times> rulesContext option) list
    \<Rightarrow> (error + switchRequest) list" where
  "notifications config rule [] = []"
| "notifications config rule ((now, ctx) # rest) =
     snd (shouldAbandon config now rule ctx) #
     notifications config (fst (shouldAbandon config now rule ctx)) rest"

text \<open>A call commits an abandon decision when it returns a decision that asks for a quality.\<close>

definition abandon_committed :: "error + switchRequest \<Rightarrow> bool" where
  "abandon_committed r = (case r of Inl e \<Rightarrow> False | Inr d \<Rightarrow> quality_req d \<noteq> NO_CHANGE)"

text \<open>The request index and the current quality index that a notification carries.\<close>

definition notified_fragment :: "real \<times> rulesContext option \<Rightarrow> nat option" where
  "notified_fragment n =
     (case snd n of
        None \<Rightarrow> None
      | Some ctx \<Rightarrow> (case getCurrentRequest ctx of None \<Rightarrow> None | Some req \<Rightarrow> index req))"

definition notified_quality :: "real \<times> rulesContext option \<Rightarrow> nat option" where
  "notified_quality n =
     (case snd n of
        None \<Rightarrow> None
      | Some ctx \<Rightarrow> map_option quality_rep (getRepresentationInfo ctx))"

section \<open>Operations on a track state\<close>

text \<open>
  The track states that the rules can produce: those created by either
  \<open>getInitialBolaState\<close>, and from such a state the clearing on seek, a retarget that
  returns, and the assignment of \<open>lastQuality\<close>. This is generous: it takes every
  operation on a track state that the sources contain as one that can run.
\<close>

inductive track_reachable :: "bolaState \<Rightarrow> bool" where
  created: "getInitialBolaState config ctx = Inr s \<Longrightarrow> track_reachable s"
| created_abandon: "getInitialBolaState_abandon config ctx = Inr (BOLA_STATE_STARTUP s) \<Longrightarrow> track_reachable s"
| seek: "track_reachable s \<Longrightarrow> track_reachable (clearBolaStateOnSeek s)"
| retarget: "track_reachable s \<Longrightarrow> checkBolaStateStableBufferTime config s mediaType = Inr s' \<Longrightarrow>
     track_reachable s'"
| decided: "track_reachable s \<Longrightarrow> track_reachable (s\<lparr>lastQuality := q\<rparr>)"

section \<open>Auxiliary notions for the statements\<close>

text \<open>
  The score as a real number, for indices inside the ladder; \<open>score_at\<close> agrees with it
  there whenever the working level is a number.
\<close>

definition score :: "bolaState \<Rightarrow> real \<Rightarrow> nat \<Rightarrow> real" where
  "score bolaState l i = (Vp bolaState * (utilities bolaState ! i + gp bolaState) - l) / bitrates bolaState ! i"

text \<open>
  A well-formed ladder, as the manifest delivers it: at least one representation, one
  utility per bitrate, bitrates positive and strictly increasing with the index.
\<close>

definition ladder_ok :: "bolaState \<Rightarrow> bool" where
  "ladder_ok bs = (bitrates bs \<noteq> [] \<and> length (utilities bs) = length (bitrates bs) \<and>
                   0 < hd (bitrates bs) \<and> sorted_wrt (<) (bitrates bs))"

text \<open>The buffer level projected over the download of the next segment at quality \<open>q\<close>.\<close>

definition projected :: "bolaState \<Rightarrow> real \<Rightarrow> real \<Rightarrow> real \<Rightarrow> nat \<Rightarrow> real" where
  "projected bs B T D q = B + (1 - bitrates bs ! q / T / 1000) * D"

text \<open>
  Two properties of the loop variables. \<open>lab_consistent\<close>: the working level is a
  number, and it is the projection for the bitrate chosen last, if one was chosen.
  \<open>lab_fixed\<close>: the quality is a fixed point of the look-ahead, that is, a scoring pass
  at the level projected for it chooses it again.
\<close>

definition lab_consistent :: "bolaState \<Rightarrow> real \<Rightarrow> real \<Rightarrow> real \<Rightarrow> labLoop \<Rightarrow> bool" where
  "lab_consistent bs B T D v =
     (\<exists>l. LABLevel v = Some l \<and>
          (bitrate v = None \<or>
           (\<exists>p<length (bitrates bs). bitrate v = Some (bitrates bs ! p) \<and> l = projected bs B T D p)))"

definition lab_fixed :: "bolaState \<Rightarrow> real \<Rightarrow> real \<Rightarrow> real \<Rightarrow> labLoop \<Rightarrow> bool" where
  "lab_fixed bs B T D v =
     (\<exists>q<length (bitrates bs). quality v = Some q \<and>
         snd (scoring_pass bs (Some (projected bs B T D q)) None) = Some q)"

text \<open>
  A three-tier ladder (500, 1000 and 2000 kbit/s) with the utilities
  \<open>ln (b / 500000) + 1\<close> to three decimals and the parameters that
  \<open>calculateBolaParameters\<close> derives from them for a target buffer time of 12 s.
\<close>

definition ladder3 :: bolaState where
  "ladder3 =
     \<lparr>bitrates = [500000, 1000000, 2000000],
      utilities = [1, 1693 / 1000, 2386 / 1000],
      stableBufferTime = 12,
      Vp = 1000 / 231,
      gp = 231 / 100,
      lastQuality = Some 0,
      placeholderBuffer = 0,
      mostAdvancedSegmentStart = None,
      lastSegmentWasReplacement = False,
      lastSegmentStart = None,
      lastSegmentDurationS = None,
      lastSegmentRequestTimeMs = None,
      lastSegmentFinishTimeMs = None\<rparr>"

text \<open>
  The track state that \<open>getInitialBolaState\<close> creates for the same ladder at a target
  buffer time of 12 s, with the utilities \<open>ln (b / 500000) + 1\<close> themselves.
\<close>

definition ladder3_created :: bolaState where
  "ladder3_created =
     \<lparr>bitrates = [500000, 1000000, 2000000],
      utilities = [1, 1 + ln 2, 1 + 2 * ln 2],
      stableBufferTime = 12,
      Vp = 3 / ln 2,
      gp = 10 * ln 2 / 3,
      lastQuality = Some 0,
      placeholderBuffer = 0,
      mostAdvancedSegmentStart = None,
      lastSegmentWasReplacement = False,
      lastSegmentStart = None,
      lastSegmentDurationS = None,
      lastSegmentRequestTimeMs = None,
      lastSegmentFinishTimeMs = None\<rparr>"

text \<open>
  A player configured for a target buffer time of 12 s, and two that retarget: to 30 s,
  and to 14 s, which is still below the floor \<open>10 + 2 * 3\<close> of the three-tier ladder.
  The buffer level is 20 s throughout.
\<close>

definition player_config :: dashConfig where
  "player_config = \<lparr>getCurrentBufferLevel = (\<lambda>type. 20), getStableBufferTime = 12\<rparr>"

definition retarget_config :: dashConfig where
  "retarget_config = \<lparr>getCurrentBufferLevel = (\<lambda>type. 20), getStableBufferTime = 30\<rparr>"

definition same_floor_config :: dashConfig where
  "same_floor_config = \<lparr>getCurrentBufferLevel = (\<lambda>type. 20), getStableBufferTime = 14\<rparr>"

text \<open>
  A rules context with every property, for a video track with the given ladder, on which
  the throughput history reports 1000 kbit/s; the current representation has quality
  index 2 and segments of 4 s.
\<close>

definition context_for :: "real list \<Rightarrow> request option \<Rightarrow> rulesContext" where
  "context_for ladder req =
     \<lparr>getMediaInfo = Some \<lparr>bitrateList = ladder\<rparr>,
      getMediaType = Some ''video'',
      getScheduleController = Some (),
      getStreamInfo = Some (Some \<lparr>stream_id = ''main'', isDynamic = False\<rparr>),
      getAbrController = Some \<lparr>getAverageThroughput = (\<lambda>type dynamic. Some 1000),
                               getAverageLatency = (\<lambda>type. Some 50)\<rparr>,
      useBufferOccupancyABR = Some True,
      getRepresentationInfo = Some \<lparr>fragmentDuration = 4, quality_rep = 2\<rparr>,
      getCurrentRequest = req\<rparr>"

text \<open>
  Progress of one request (index 7, 2 MB, 4 s of media, first byte at time 0) that loads
  250 bytes per millisecond, which is 2000 kbit/s, notified at 200, 300, 400, 500 and
  600 ms: the download would take 8 s, more than 1.8 times the segment duration.
\<close>

definition progress_at :: "real \<Rightarrow> real \<times> rulesContext option" where
  "progress_at now =
     (now, Some (context_for [500000, 1000000, 2000000]
        (Some \<lparr>index = Some 7, firstByteDate = Some 0, duration = 4,
               bytesTotal_req = 2000000, bytesLoaded_req = 250 * now\<rparr>)))"

definition slow_download :: "(real \<times> rulesContext option) list" where
  "slow_download = map progress_at [200, 300, 400, 500, 600]"

section \<open>The scan for the highest utility\<close>

lemma highestIndexFrom_bound:
  "h < length us \<Longrightarrow> k + length rest = length us \<Longrightarrow>
   highestIndexFrom us h k rest < length us"
  by (induction rest arbitrary: h k) auto

lemma highestIndexFrom_spec:
  assumes "us = pre @ rest" "k = length pre" "h < length us"
    and "\<forall>j < k. us ! j \<le> us ! h"
    and "\<forall>j < h. us ! j < us ! h"
    and "h \<le> k"
  shows "(\<forall>j < length us. us ! j \<le> us ! highestIndexFrom us h k rest) \<and>
         (\<forall>j < highestIndexFrom us h k rest.
            us ! j < us ! highestIndexFrom us h k rest)"
  using assms
proof (induction rest arbitrary: pre h k)
  case Nil
  then show ?case by simp
next
  case (Cons u rest)
  have uk: "us ! k = u" and klt: "k < length us"
    using Cons.prems(1,2) by simp_all
  show ?case
  proof (cases "u > us ! h")
    case True
    have "(\<forall>j<length us. us ! j \<le> us ! highestIndexFrom us k (Suc k) rest) \<and>
          (\<forall>j<highestIndexFrom us k (Suc k) rest.
             us ! j < us ! highestIndexFrom us k (Suc k) rest)"
    proof (rule Cons.IH [of "pre @ [u]"])
      show "us = (pre @ [u]) @ rest" using Cons.prems(1) by simp
      show "Suc k = length (pre @ [u])" using Cons.prems(2) by simp
      show "k < length us" by (rule klt)
      show "\<forall>j<Suc k. us ! j \<le> us ! k"
        using Cons.prems(4) True uk by (auto simp: less_Suc_eq)
      show "\<forall>j<k. us ! j < us ! k"
        using Cons.prems(4) True uk by fastforce
      show "k \<le> Suc k" by simp
    qed
    with True show ?thesis by simp
  next
    case False
    have "(\<forall>j<length us. us ! j \<le> us ! highestIndexFrom us h (Suc k) rest) \<and>
          (\<forall>j<highestIndexFrom us h (Suc k) rest.
             us ! j < us ! highestIndexFrom us h (Suc k) rest)"
    proof (rule Cons.IH [of "pre @ [u]"])
      show "us = (pre @ [u]) @ rest" using Cons.prems(1) by simp
      show "Suc k = length (pre @ [u])" using Cons.prems(2) by simp
      show "h < length us" by (rule Cons.prems(3))
      show "\<forall>j<Suc k. us ! j \<le> us ! h"
        using Cons.prems(4) False uk by (auto simp: less_Suc_eq)
      show "\<forall>j<h. us ! j < us ! h" by (rule Cons.prems(5))
      show "h \<le> Suc k" using Cons.prems(6) by simp
    qed
    with False show ?thesis by simp
  qed
qed

lemma highestUtilityIndex_max:
  assumes "us \<noteq> []"
  shows "highestUtilityIndex us < length us"
    and "\<forall>j < length us. us ! j \<le> us ! highestUtilityIndex us"
    and "\<forall>j < highestUtilityIndex us. us ! j < us ! highestUtilityIndex us"
proof -
  have len: "0 < length us" using assms by simp
  show "highestUtilityIndex us < length us"
    unfolding highestUtilityIndex_def
    by (rule highestIndexFrom_bound) (use len in simp_all)
  have "(\<forall>j < length us. us ! j \<le> us ! highestIndexFrom us 0 0 us) \<and>
        (\<forall>j < highestIndexFrom us 0 0 us.
           us ! j < us ! highestIndexFrom us 0 0 us)"
    by (rule highestIndexFrom_spec [of us "[]"]) (use len in simp_all)
  then show "\<forall>j < length us. us ! j \<le> us ! highestUtilityIndex us"
    and "\<forall>j < highestUtilityIndex us. us ! j < us ! highestUtilityIndex us"
    unfolding highestUtilityIndex_def by simp_all
qed

lemma highestUtilityIndex_Nil: "highestUtilityIndex [] = 0"
  by (simp add: highestUtilityIndex_def)

section \<open>The scoring pass\<close>

lemma score_at_Some:
  "i < length (bitrates bs) \<Longrightarrow> length (utilities bs) = length (bitrates bs) \<Longrightarrow>
   score_at bs (Some l) i = Some (score bs l i)"
  by (simp add: score_at_def score_def)

lemma scan_quality_Some:
  "0 < n \<Longrightarrow> \<exists>m<n. snd (foldl (score_step bs lv) (None, q0) [0..<n]) = Some m"
proof (induction n)
  case 0
  then show ?case by simp
next
  case (Suc n)
  show ?case
  proof (cases "n = 0")
    case True
    then show ?thesis by (simp add: score_step_def isNaN_def)
  next
    case False
    then obtain m where m: "m < n" "snd (foldl (score_step bs lv) (None, q0) [0..<n]) = Some m"
      using Suc.IH by auto
    define r where "r = foldl (score_step bs lv) (None, q0) [0..<n]"
    have "foldl (score_step bs lv) (None, q0) [0..<Suc n] = score_step bs lv r n"
      by (simp add: r_def)
    moreover have "snd (score_step bs lv r n) = Some n \<or> snd (score_step bs lv r n) = Some m"
      using m(2) by (simp add: score_step_def Let_def r_def)
    ultimately show ?thesis using m(1) by (auto simp: less_Suc_eq)
  qed
qed

lemma scan_argmax:
  assumes "0 < n" "n \<le> length (bitrates bs)" "length (utilities bs) = length (bitrates bs)"
  shows "\<exists>m<n. foldl (score_step bs (Some l)) (None, q0) [0..<n] = (Some (score bs l m), Some m) \<and>
           (\<forall>j<n. score bs l j \<le> score bs l m) \<and>
           (\<forall>j<n. m < j \<longrightarrow> score bs l j < score bs l m)"
  using assms
proof (induction n)
  case 0
  then show ?case by simp
next
  case (Suc n)
  have sn: "score_at bs (Some l) n = Some (score bs l n)"
    using Suc.prems by (simp add: score_at_Some)
  show ?case
  proof (cases "n = 0")
    case True
    then show ?thesis using sn by (simp add: score_step_def isNaN_def)
  next
    case False
    then obtain m where m: "m < n"
      "foldl (score_step bs (Some l)) (None, q0) [0..<n] = (Some (score bs l m), Some m)"
      "\<forall>j<n. score bs l j \<le> score bs l m"
      "\<forall>j<n. m < j \<longrightarrow> score bs l j < score bs l m"
      using Suc.IH Suc.prems by auto
    show ?thesis
    proof (cases "score bs l n \<ge> score bs l m")
      case True
      have "foldl (score_step bs (Some l)) (None, q0) [0..<Suc n] = (Some (score bs l n), Some n)"
        using m(2) sn True by (simp add: score_step_def isNaN_def js_ge_def)
      moreover have "\<forall>j<Suc n. score bs l j \<le> score bs l n"
        using m(3) True by (auto simp: less_Suc_eq intro: order_trans)
      ultimately show ?thesis by auto
    next
      case False
      have "foldl (score_step bs (Some l)) (None, q0) [0..<Suc n] = (Some (score bs l m), Some m)"
        using m(2) sn False by (simp add: score_step_def isNaN_def js_ge_def)
      moreover have "\<forall>j<Suc n. score bs l j \<le> score bs l m"
        using m(3) False by (auto simp: less_Suc_eq)
      moreover have "\<forall>j<Suc n. m < j \<longrightarrow> score bs l j < score bs l m"
        using m(4) False by (auto simp: less_Suc_eq)
      ultimately show ?thesis using m(1) by auto
    qed
  qed
qed

lemma scan_start_irrelevant:
  "0 < n \<Longrightarrow> foldl (score_step bs lv) (None, q0) [0..<n] = foldl (score_step bs lv) (None, q1) [0..<n]"
  by (simp add: upt_conv_Cons score_step_def isNaN_def Let_def)

lemma pass_start_irrelevant:
  "bitrates bs \<noteq> [] \<Longrightarrow> scoring_pass bs lv q0 = scoring_pass bs lv q1"
  unfolding scoring_pass_def by (rule scan_start_irrelevant) simp

lemma pass_quality_Some:
  "bitrates bs \<noteq> [] \<Longrightarrow> \<exists>m<length (bitrates bs). snd (scoring_pass bs lv q0) = Some m"
  unfolding scoring_pass_def by (rule scan_quality_Some) simp

lemma pass_argmax:
  assumes "bitrates bs \<noteq> []" "length (utilities bs) = length (bitrates bs)"
  shows "\<exists>m<length (bitrates bs). scoring_pass bs (Some l) q0 = (Some (score bs l m), Some m) \<and>
           (\<forall>j<length (bitrates bs). score bs l j \<le> score bs l m) \<and>
           (\<forall>j<length (bitrates bs). m < j \<longrightarrow> score bs l j < score bs l m)"
  unfolding scoring_pass_def by (rule scan_argmax) (use assms in simp_all)

lemma score_cross:
  fixes a1 a2 b1 b2 l1 l2 :: real
  assumes "0 < b2" "b2 < b1" "l1 \<le> l2" "(a2 - l1) / b2 \<le> (a1 - l1) / b1"
  shows "(a2 - l2) / b2 \<le> (a1 - l2) / b1"
proof -
  have b1: "0 < b1" using assms by simp
  have h: "(a2 - l1) * b1 \<le> (a1 - l1) * b2"
    using assms(1,4) b1 by (simp add: field_simps)
  have "0 \<le> (l2 - l1) * (b1 - b2)" using assms by simp
  with h have "(a2 - l2) * b1 \<le> (a1 - l2) * b2" by (simp add: algebra_simps)
  then show ?thesis using assms(1) b1 by (simp add: field_simps)
qed

lemma ladder_ok_pos: "ladder_ok bs \<Longrightarrow> i < length (bitrates bs) \<Longrightarrow> 0 < bitrates bs ! i"
proof -
  assume a: "ladder_ok bs" "i < length (bitrates bs)"
  then have "hd (bitrates bs) = bitrates bs ! 0" by (simp add: ladder_ok_def hd_conv_nth)
  moreover have "i \<noteq> 0 \<Longrightarrow> bitrates bs ! 0 < bitrates bs ! i"
    using a by (auto simp: ladder_ok_def intro: sorted_wrt_nth_less)
  ultimately show ?thesis using a by (cases "i = 0") (auto simp: ladder_ok_def)
qed

lemma ladder_ok_less:
  "ladder_ok bs \<Longrightarrow> i < j \<Longrightarrow> j < length (bitrates bs) \<Longrightarrow> bitrates bs ! i < bitrates bs ! j"
  by (auto simp: ladder_ok_def intro: sorted_wrt_nth_less)

lemma ladder_ok_inj:
  assumes "ladder_ok bs" "i < length (bitrates bs)" "j < length (bitrates bs)"
    "bitrates bs ! i = bitrates bs ! j"
  shows "i = j"
proof (rule ccontr)
  assume "i \<noteq> j"
  then consider "i < j" | "j < i" by linarith
  then show False
    using ladder_ok_less [OF assms(1), of i j] ladder_ok_less [OF assms(1), of j i] assms by cases auto
qed

lemma pass_mono:
  assumes ok: "ladder_ok bs" and le: "l1 \<le> l2"
    and p1: "snd (scoring_pass bs (Some l1) q0) = Some m1"
    and p2: "snd (scoring_pass bs (Some l2) q1) = Some m2"
  shows "m1 \<le> m2"
proof (rule ccontr)
  assume "\<not> m1 \<le> m2"
  then have lt: "m2 < m1" by simp
  have ne: "bitrates bs \<noteq> []" and len: "length (utilities bs) = length (bitrates bs)"
    using ok by (simp_all add: ladder_ok_def)
  obtain k1 where k1: "k1 < length (bitrates bs)"
      "scoring_pass bs (Some l1) q0 = (Some (score bs l1 k1), Some k1)"
      "\<forall>j<length (bitrates bs). score bs l1 j \<le> score bs l1 k1"
    using pass_argmax [OF ne len, of l1 q0] by blast
  obtain k2 where k2: "k2 < length (bitrates bs)"
      "scoring_pass bs (Some l2) q1 = (Some (score bs l2 k2), Some k2)"
      "\<forall>j<length (bitrates bs). score bs l2 j \<le> score bs l2 k2"
      "\<forall>j<length (bitrates bs). k2 < j \<longrightarrow> score bs l2 j < score bs l2 k2"
    using pass_argmax [OF ne len, of l2 q1] by blast
  have e1: "k1 = m1" using k1(2) p1 by simp
  have e2: "k2 = m2" using k2(2) p2 by simp
  have m1: "m1 < length (bitrates bs)" and m2: "m2 < length (bitrates bs)"
    using k1(1) k2(1) e1 e2 by simp_all
  have "score bs l1 m2 \<le> score bs l1 m1" using k1(3) e1 m2 by simp
  then have "score bs l2 m2 \<le> score bs l2 m1"
    unfolding score_def
    by (rule score_cross [OF ladder_ok_pos [OF ok m2] ladder_ok_less [OF ok lt m1] le])
  moreover have "score bs l2 m1 < score bs l2 m2" using k2(4) e2 lt m1 by simp
  ultimately show False by simp
qed

lemma lab_body_props:
  assumes "bitrates bs \<noteq> []"
  shows "\<exists>q<length (bitrates bs). snd (scoring_pass bs (LABLevel v) (quality v)) = Some q \<and>
           lab_body bs B T D v =
             \<lparr>quality = Some q, bitrate = Some (bitrates bs ! q), prev_bitrate = bitrate v,
              LABLevel = Some (projected bs B T D q), maxIte = maxIte v - 1,
              iterations = Suc (iterations v)\<rparr>"
proof -
  obtain q where q: "q < length (bitrates bs)" "snd (scoring_pass bs (LABLevel v) (quality v)) = Some q"
    using pass_quality_Some [OF assms] by blast
  then show ?thesis
    by (auto simp: lab_body_def Let_def bitrate_of_def project_level_def projected_def)
qed

lemma lab_body_invariant:
  assumes ok: "ladder_ok bs" and c: "lab_consistent bs B T D v"
  shows "lab_consistent bs B T D (lab_body bs B T D v)"
    and "\<not> lab_continue (lab_body bs B T D v) \<Longrightarrow> lab_fixed bs B T D (lab_body bs B T D v)"
proof -
  have ne: "bitrates bs \<noteq> []" using ok by (simp add: ladder_ok_def)
  obtain q where q: "q < length (bitrates bs)"
      "snd (scoring_pass bs (LABLevel v) (quality v)) = Some q"
      "lab_body bs B T D v =
         \<lparr>quality = Some q, bitrate = Some (bitrates bs ! q), prev_bitrate = bitrate v,
          LABLevel = Some (projected bs B T D q), maxIte = maxIte v - 1,
          iterations = Suc (iterations v)\<rparr>"
    using lab_body_props [OF ne, of v B T D] by blast
  show "lab_consistent bs B T D (lab_body bs B T D v)"
    using q(1) by (auto simp: q(3) lab_consistent_def)
  assume "\<not> lab_continue (lab_body bs B T D v)"
  then have eq: "bitrate v = Some (bitrates bs ! q)"
    by (simp add: q(3) lab_continue_def isNaN_def)
  obtain l where l: "LABLevel v = Some l" using c by (auto simp: lab_consistent_def)
  obtain p where p: "p < length (bitrates bs)" "bitrates bs ! q = bitrates bs ! p" "l = projected bs B T D p"
    using c l eq by (auto simp: lab_consistent_def)
  have "p = q" using ladder_ok_inj [OF ok p(1) q(1)] p(2) by simp
  then have "snd (scoring_pass bs (Some (projected bs B T D q)) (quality v)) = Some q"
    using q(2) l p(3) by simp
  then have "snd (scoring_pass bs (Some (projected bs B T D q)) None) = Some q"
    using pass_start_irrelevant [OF ne, of "Some (projected bs B T D q)" "quality v" None] by simp
  then show "lab_fixed bs B T D (lab_body bs B T D v)"
    using q(1) by (auto simp: q(3) lab_fixed_def)
qed

lemma lab_while_fixed:
  assumes ok: "ladder_ok bs"
  shows "lab_consistent bs B T D v \<Longrightarrow> (\<not> lab_continue v \<Longrightarrow> lab_fixed bs B T D v) \<Longrightarrow>
         \<not> lab_continue (lab_while bs B T D v) \<Longrightarrow> lab_fixed bs B T D (lab_while bs B T D v)"
  using ok
proof (induction bs B T D v rule: lab_while.induct)
  case (1 bs B T D v)
  show ?case
  proof (cases "lab_continue v")
    case False
    then have "lab_while bs B T D v = v" by (subst lab_while.simps) simp
    then show ?thesis using False "1.prems"(2) by simp
  next
    case True
    define v' where "v' = lab_body bs B T D v"
    have c': "lab_consistent bs B T D v'"
      and f': "\<not> lab_continue v' \<Longrightarrow> lab_fixed bs B T D v'"
      using lab_body_invariant [OF "1.prems"(4) "1.prems"(1)] by (simp_all add: v'_def)
    show ?thesis
    proof (cases "maxIte v' < 0")
      case neg: True
      have "lab_while bs B T D v = v'"
        using True neg by (subst lab_while.simps) (simp add: v'_def Let_def)
      then show ?thesis using f' "1.prems"(3) by simp
    next
      case nonneg: False
      have w: "lab_while bs B T D v = lab_while bs B T D v'"
        using True nonneg by (subst lab_while.simps) (simp add: v'_def Let_def)
      have "lab_fixed bs B T D (lab_while bs B T D v')"
        using "1.IH" [OF True v'_def nonneg c' f'] "1.prems"(3,4) w by simp
      then show ?thesis using w by simp
    qed
  qed
qed

lemma lab_while_exit:
  "\<not> lab_continue (lab_while bs B T D v) \<or> maxIte (lab_while bs B T D v) < 0"
proof (induction bs B T D v rule: lab_while.induct)
  case (1 bs B T D v)
  show ?case
  proof (cases "lab_continue v")
    case False
    then have "lab_while bs B T D v = v" by (subst lab_while.simps) simp
    then show ?thesis using False by simp
  next
    case True
    show ?thesis
    proof (cases "maxIte (lab_body bs B T D v) < 0")
      case neg: True
      have "lab_while bs B T D v = lab_body bs B T D v"
        using True neg by (subst lab_while.simps) (simp add: Let_def)
      then show ?thesis using neg by simp
    next
      case nonneg: False
      have "lab_while bs B T D v = lab_while bs B T D (lab_body bs B T D v)"
        using True nonneg by (subst lab_while.simps) (simp add: Let_def)
      then show ?thesis using "1.IH" [OF True refl nonneg] by simp
    qed
  qed
qed

lemma lab_while_iterations:
  "0 \<le> maxIte v \<Longrightarrow>
   int (iterations (lab_while bs B T D v)) + maxIte (lab_while bs B T D v) = int (iterations v) + maxIte v \<and>
   - 1 \<le> maxIte (lab_while bs B T D v)"
proof (induction bs B T D v rule: lab_while.induct)
  case (1 bs B T D v)
  show ?case
  proof (cases "lab_continue v")
    case False
    then have "lab_while bs B T D v = v" by (subst lab_while.simps) simp
    then show ?thesis using "1.prems" by simp
  next
    case True
    have b: "maxIte (lab_body bs B T D v) = maxIte v - 1"
      "iterations (lab_body bs B T D v) = Suc (iterations v)"
      by (simp_all add: lab_body_def Let_def)
    show ?thesis
    proof (cases "maxIte (lab_body bs B T D v) < 0")
      case neg: True
      have "lab_while bs B T D v = lab_body bs B T D v"
        using True neg by (subst lab_while.simps) (simp add: Let_def)
      then show ?thesis using neg b "1.prems" by simp
    next
      case nonneg: False
      then have "0 \<le> maxIte (lab_body bs B T D v)" by simp
      from "1.IH" [OF True refl nonneg this]
      have ih: "int (iterations (lab_while bs B T D (lab_body bs B T D v))) +
          maxIte (lab_while bs B T D (lab_body bs B T D v)) =
          int (iterations (lab_body bs B T D v)) + maxIte (lab_body bs B T D v) \<and>
          - 1 \<le> maxIte (lab_while bs B T D (lab_body bs B T D v))" .
      have "lab_while bs B T D v = lab_while bs B T D (lab_body bs B T D v)"
        using True nonneg by (subst lab_while.simps) (simp add: Let_def)
      then show ?thesis using ih b by simp
    qed
  qed
qed

text \<open>The three ways through one test of the loop condition.\<close>

lemma lab_while_step:
  "lab_continue v \<Longrightarrow> lab_body bs B T D v = v' \<Longrightarrow> 0 \<le> maxIte v' \<Longrightarrow>
   lab_while bs B T D v = lab_while bs B T D v'"
  by (subst lab_while.simps) (simp add: Let_def)

lemma lab_while_break:
  "lab_continue v \<Longrightarrow> lab_body bs B T D v = v' \<Longrightarrow> maxIte v' < 0 \<Longrightarrow>
   lab_while bs B T D v = v'"
  by (subst lab_while.simps) (simp add: Let_def)

lemma lab_while_stop: "\<not> lab_continue v \<Longrightarrow> lab_while bs B T D v = v"
  by (subst lab_while.simps) simp

section \<open>Control parameters\<close>

lemma highestUtilityIndex_zero_iff:
  "highestUtilityIndex us = 0 \<longleftrightarrow> (\<forall>j<length us. us ! j \<le> us ! 0)"
proof (cases "us = []")
  case True
  then show ?thesis by (simp add: highestUtilityIndex_Nil)
next
  case False
  show ?thesis
  proof
    assume "highestUtilityIndex us = 0"
    then show "\<forall>j<length us. us ! j \<le> us ! 0"
      using highestUtilityIndex_max(2) [OF False] by simp
  next
    assume a: "\<forall>j<length us. us ! j \<le> us ! 0"
    show "highestUtilityIndex us = 0"
    proof (rule ccontr)
      assume "highestUtilityIndex us \<noteq> 0"
      then have "us ! 0 < us ! highestUtilityIndex us"
        using highestUtilityIndex_max(3) [OF False] by simp
      moreover have "us ! highestUtilityIndex us \<le> us ! 0"
        using a highestUtilityIndex_max(1) [OF False] by simp
      ultimately show False by simp
    qed
  qed
qed

lemma calculateBolaParameters_divisors:
  assumes "length bs = length us" "us ! 0 = 1" "highestUtilityIndex us \<noteq> 0"
  shows "max targetBufferTime (10 + 2 * real (length bs)) / 10 - 1 > 0"
    and "(us ! highestUtilityIndex us - 1) /
           (max targetBufferTime (10 + 2 * real (length bs)) / 10 - 1) > 0"
proof -
  have ne: "us \<noteq> []" using assms(3) by (auto simp: highestUtilityIndex_Nil)
  have "1 \<le> length bs" using ne assms(1) by (cases us) auto
  then have "12 \<le> max targetBufferTime (10 + 2 * real (length bs))" by simp
  then show d: "max targetBufferTime (10 + 2 * real (length bs)) / 10 - 1 > 0" by simp
  have "us ! 0 < us ! highestUtilityIndex us"
    using highestUtilityIndex_max(3) [OF ne] assms(3) by simp
  then have "0 < us ! highestUtilityIndex us - 1" using assms(2) by simp
  then show "(us ! highestUtilityIndex us - 1) /
           (max targetBufferTime (10 + 2 * real (length bs)) / 10 - 1) > 0"
    using d by simp
qed

text \<open>
  The first position of the largest utility is unique, and the scan of the code finds it.
\<close>

lemma first_maximum_unique:
  assumes "h < length us" "\<forall>j<length us. us ! j \<le> us ! h" "\<forall>j<h. us ! j < us ! h"
  shows "highestUtilityIndex us = h"
proof -
  have ne: "us \<noteq> []" using assms(1) by auto
  let ?k = "highestUtilityIndex us"
  have k: "?k < length us" "\<forall>j<length us. us ! j \<le> us ! ?k" "\<forall>j<?k. us ! j < us ! ?k"
    using highestUtilityIndex_max [OF ne] by blast+
  show ?thesis
  proof (rule ccontr)
    assume "?k \<noteq> h"
    then consider "?k < h" | "h < ?k" by linarith
    then show False
    proof cases
      case 1
      then have "us ! ?k < us ! h" using assms(3) by simp
      moreover have "us ! h \<le> us ! ?k" using k(2) assms(1) by simp
      ultimately show False by simp
    next
      case 2
      then have "us ! h < us ! ?k" using k(3) by simp
      moreover have "us ! ?k \<le> us ! h" using assms(2) k(1) by simp
      ultimately show False by simp
    qed
  qed
qed

text \<open>
  Claim C2. Let \<open>h\<close> be the index of the highest utility: the first position that holds
  the largest utility of the ladder. \<open>calculateBolaParameters\<close> returns \<open>null\<close>
  exactly when \<open>h\<close> is 0, which is exactly when no utility exceeds the first one. When
  \<open>h\<close> is not 0, on a normalised ladder with one utility per bitrate, no divisor is
  zero and the result is \<open>gp = (utilities[h] - 1) / (bufferTime / 10 - 1)\<close> and
  \<open>Vp = 10 / gp\<close>, where \<open>bufferTime\<close> is the larger of the target buffer time and
  \<open>10 + 2 * ladderSize\<close>.
\<close>

theorem calculateBolaParameters_formula:
  "(h < length us \<and> (\<forall>j<length us. us ! j \<le> us ! h) \<and> (\<forall>j<h. us ! j < us ! h) \<longrightarrow>
      (calculateBolaParameters targetBufferTime bs us = None \<longleftrightarrow> h = 0) \<and>
      (h \<noteq> 0 \<and> length bs = length us \<and> us ! 0 = 1 \<longrightarrow>
         0 < max targetBufferTime (10 + 2 * real (length bs)) / 10 - 1 \<and>
         0 < (us ! h - 1) / (max targetBufferTime (10 + 2 * real (length bs)) / 10 - 1) \<and>
         calculateBolaParameters targetBufferTime bs us =
           Some \<lparr>params_gp = (us ! h - 1) /
                               (max targetBufferTime (10 + 2 * real (length bs)) / 10 - 1),
                 params_Vp = 10 / ((us ! h - 1) /
                               (max targetBufferTime (10 + 2 * real (length bs)) / 10 - 1))\<rparr>)) \<and>
   (calculateBolaParameters targetBufferTime bs us = None \<longleftrightarrow> (\<forall>j<length us. us ! j \<le> us ! 0))"
  (is "(?F \<longrightarrow> ?N \<and> (?G \<longrightarrow> ?R)) \<and> ?Z")
proof (rule conjI)
  have none: "calculateBolaParameters targetBufferTime bs us = None \<longleftrightarrow> highestUtilityIndex us = 0"
    by (simp add: calculateBolaParameters_def Let_def)
  show ?Z using none highestUtilityIndex_zero_iff [of us] by simp
  show "?F \<longrightarrow> ?N \<and> (?G \<longrightarrow> ?R)"
  proof (rule impI)
    assume fm: ?F
    have e: "highestUtilityIndex us = h"
      by (rule first_maximum_unique) (use fm in simp_all)
    show "?N \<and> (?G \<longrightarrow> ?R)"
    proof (rule conjI)
      show ?N using none by (simp add: e)
      show "?G \<longrightarrow> ?R"
      proof (rule impI)
        assume g: ?G
        have k: "highestUtilityIndex us \<noteq> 0" using g by (simp add: e)
        have l: "length bs = length us" and z: "us ! 0 = 1" using g by simp_all
        have d1: "0 < max targetBufferTime (10 + 2 * real (length bs)) / 10 - 1"
          by (rule calculateBolaParameters_divisors(1) [OF l z k])
        have d2: "0 < (us ! h - 1) / (max targetBufferTime (10 + 2 * real (length bs)) / 10 - 1)"
          using calculateBolaParameters_divisors(2) [OF l z k, of targetBufferTime] by (simp only: e)
        have v: "calculateBolaParameters targetBufferTime bs us =
           Some \<lparr>params_gp = (us ! h - 1) /
                               (max targetBufferTime (10 + 2 * real (length bs)) / 10 - 1),
                 params_Vp = 10 / ((us ! h - 1) /
                               (max targetBufferTime (10 + 2 * real (length bs)) / 10 - 1))\<rparr>"
          using k by (simp add: calculateBolaParameters_def Let_def MINIMUM_BUFFER_S_def
              MINIMUM_BUFFER_PER_BITRATE_LEVEL_S_def e)
        show ?R using d1 d2 v by (intro conjI)
      qed
    qed
  qed
qed

theorem calculateBolaParameters_formula_witness:
  "(2::nat) < length [1, 1693 / 1000, 2386 / 1000 :: real] \<and>
   [1, 1693 / 1000, 2386 / 1000 :: real] ! 0 < [1, 1693 / 1000, 2386 / 1000] ! 2 \<and>
   [1, 1693 / 1000, 2386 / 1000 :: real] ! 1 < [1, 1693 / 1000, 2386 / 1000] ! 2 \<and>
   length [500000, 1000000, 2000000 :: real] = length [1, 1693 / 1000, 2386 / 1000 :: real] \<and>
   [1, 1693 / 1000, 2386 / 1000 :: real] ! 0 = 1 \<and>
   calculateBolaParameters 12 [500000, 1000000, 2000000] [1, 1693 / 1000, 2386 / 1000] =
     Some \<lparr>params_gp = ([1, 1693 / 1000, 2386 / 1000] ! 2 - 1) /
                         (max 12 (10 + 2 * real (length [500000, 1000000, 2000000 :: real])) / 10 - 1),
           params_Vp = 10 / (([1, 1693 / 1000, 2386 / 1000] ! 2 - 1) /
                         (max 12 (10 + 2 * real (length [500000, 1000000, 2000000 :: real])) / 10 - 1))\<rparr> \<and>
   calculateBolaParameters 12 [500000, 1000000, 2000000] [1, 1693 / 1000, 2386 / 1000] =
     Some \<lparr>params_gp = 231 / 100, params_Vp = 1000 / 231\<rparr> \<and>
   calculateBolaParameters 12 [500000] [1] = None"
proof -
  let ?us = "[1, 1693 / 1000, 2386 / 1000 :: real]"
  let ?bs = "[500000, 1000000, 2000000 :: real]"
  have a: "(2::nat) < length ?us" by simp
  have lt: "?us ! 0 < ?us ! 2" "?us ! 1 < ?us ! 2" by simp_all
  have b: "\<forall>j<length ?us. ?us ! j \<le> ?us ! 2"
    by (auto simp: less_Suc_eq numeral_3_eq_3)
  have c: "\<forall>j<2. ?us ! j < ?us ! 2"
    by (auto simp: less_Suc_eq numeral_2_eq_2)
  have fm: "2 < length ?us \<and> (\<forall>j<length ?us. ?us ! j \<le> ?us ! 2) \<and> (\<forall>j<2. ?us ! j < ?us ! 2)"
    using a b c by (intro conjI)
  have d: "length ?bs = length ?us" "?us ! 0 = 1" by simp_all
  have g: "(2::nat) \<noteq> 0 \<and> length ?bs = length ?us \<and> ?us ! 0 = 1"
    using d by (intro conjI) simp_all
  note t = calculateBolaParameters_formula [of 2 ?us 12 ?bs]
  note s = t [THEN conjunct1, THEN mp, OF fm, THEN conjunct2, THEN mp, OF g, THEN conjunct2, THEN conjunct2]
  have v: "calculateBolaParameters 12 ?bs ?us = Some \<lparr>params_gp = 231 / 100, params_Vp = 1000 / 231\<rparr>"
    by code_simp
  have fm0: "0 < length [1::real] \<and> (\<forall>j<length [1::real]. [1::real] ! j \<le> [1] ! 0) \<and>
      (\<forall>j<0. [1::real] ! j < [1] ! 0)"
    by simp
  have n: "calculateBolaParameters 12 [500000] [1] = None"
    using calculateBolaParameters_formula [of 0 "[1]" 12 "[500000]", THEN conjunct1, THEN mp, OF fm0, THEN conjunct1]
    by simp
  show ?thesis using a lt d s v n by (intro conjI)
qed

section \<open>The choice of one scoring pass\<close>

text \<open>
  Claim C5. On a non-empty ladder with one utility per bitrate and no zero bitrate, the
  index that a scoring pass chooses at the working level \<open>l\<close> has the largest score
  \<open>(Vp * (utility[i] + gp) - l) / bitrate[i]\<close> of all ladder indices, and every index with
  the same score is at most the chosen one: ties go to the highest index.
\<close>

theorem scoring_pass_argmax:
  assumes "bitrates bs \<noteq> []" "length (utilities bs) = length (bitrates bs)" "0 \<notin> set (bitrates bs)"
  shows "\<exists>m<length (bitrates bs).
           snd (scoring_pass bs (Some l) q0) = Some m \<and>
           (\<forall>j<length (bitrates bs). score bs l j \<le> score bs l m) \<and>
           (\<forall>j<length (bitrates bs). score bs l j = score bs l m \<longrightarrow> j \<le> m)"
proof -
  obtain m where m: "m < length (bitrates bs)"
      "scoring_pass bs (Some l) q0 = (Some (score bs l m), Some m)"
      "\<forall>j<length (bitrates bs). score bs l j \<le> score bs l m"
      "\<forall>j<length (bitrates bs). m < j \<longrightarrow> score bs l j < score bs l m"
    using pass_argmax [OF assms(1,2), of l q0] by blast
  have "\<forall>j<length (bitrates bs). score bs l j = score bs l m \<longrightarrow> j \<le> m"
  proof (intro allI impI)
    fix j assume "j < length (bitrates bs)" "score bs l j = score bs l m"
    then show "j \<le> m" using m(4) by (cases "m < j") auto
  qed
  then show ?thesis using m(1,2,3) by auto
qed

theorem scoring_pass_argmax_witness:
  "bitrates ladder3 \<noteq> [] \<and> length (utilities ladder3) = length (bitrates ladder3) \<and>
   0 \<notin> set (bitrates ladder3) \<and>
   (\<exists>m<length (bitrates ladder3).
      snd (scoring_pass ladder3 (Some 12) None) = Some m \<and>
      (\<forall>j<length (bitrates ladder3). score ladder3 12 j \<le> score ladder3 12 m) \<and>
      (\<forall>j<length (bitrates ladder3). score ladder3 12 j = score ladder3 12 m \<longrightarrow> j \<le> m))"
proof -
  have h: "bitrates ladder3 \<noteq> []" "length (utilities ladder3) = length (bitrates ladder3)"
    "0 \<notin> set (bitrates ladder3)"
    by (simp_all add: ladder3_def)
  show ?thesis using h scoring_pass_argmax [OF h, of 12 None] by simp
qed

section \<open>The track state of a three-tier ladder\<close>

text \<open>
  For the ladder of 500, 1000 and 2000 kbit/s and a target buffer time of 12 s the
  parameters are \<open>Vp = 3 / ln 2\<close>, between 4 and 5, and \<open>gp = 10 * ln 2 / 3\<close>. A
  scoring pass chooses tier 0 below the working level \<open>Vp + 7\<close>, tier 1 from there to
  below \<open>Vp + 10\<close>, and tier 2 from there on.
\<close>

lemma ln2_bounds: "3 / 5 \<le> ln (2::real)" "ln (2::real) < 3 / 4"
proof -
  have "exp (3 / 5 :: real) \<le> 1 + 3 / 5 + (3 / 5)\<^sup>2" by (rule exp_bound) simp_all
  also have "\<dots> \<le> 2" by (simp add: power2_eq_square)
  finally have "exp (3 / 5 :: real) \<le> 2" .
  moreover have "(3 / 5 \<le> ln (2::real)) = (exp (3 / 5) \<le> (2::real))" by (rule ln_ge_iff) simp
  ultimately show "3 / 5 \<le> ln (2::real)" by simp
  have "(2::real) < 1 + 3 / 4 + (3 / 4)\<^sup>2 / 2" by (simp add: power2_eq_square)
  also have "\<dots> \<le> exp (3 / 4)" by (rule exp_lower_Taylor_quadratic) simp
  finally have "exp (ln 2) < exp (3 / 4 :: real)" by simp
  then show "ln (2::real) < 3 / 4" by (simp only: exp_less_cancel_iff)
qed

lemma Vp_created_bounds: "4 < Vp ladder3_created" "Vp ladder3_created \<le> 5"
proof -
  have p: "0 < ln (2::real)" by simp
  show "4 < Vp ladder3_created"
    using ln2_bounds(2) p by (simp add: ladder3_created_def field_simps)
  show "Vp ladder3_created \<le> 5"
    using ln2_bounds(1) p by (simp add: ladder3_created_def field_simps)
qed

lemma normalize_three_tier:
  "normalize (utilitiesFromBitrates [500000, 1000000, 2000000]) = [1, 1 + ln 2, 1 + 2 * ln 2]"
proof -
  have a: "ln (1000000::real) = ln 2 + ln 500000"
    using ln_mult [of "2::real" 500000] by simp
  have "ln (4::real) = 2 * ln 2"
    using ln_realpow [of "2::real" 2] by simp
  then have b: "ln (2000000::real) = 2 * ln 2 + ln 500000"
    using ln_mult [of "4::real" 500000] by simp
  show ?thesis by (simp add: normalize_def utilitiesFromBitrates_def a b)
qed

lemma three_tier_state:
  "getInitialBolaState player_config (context_for [500000, 1000000, 2000000] None) = Inr ladder3_created"
proof -
  have h: "highestUtilityIndex [1, 1 + ln 2, 1 + 2 * ln (2::real)] = 2"
    by (simp add: highestUtilityIndex_def)
  have "calculateBolaParameters 12 [500000, 1000000, 2000000] [1, 1 + ln 2, 1 + 2 * ln 2]
      = Some \<lparr>params_gp = 10 * ln 2 / 3, params_Vp = 3 / ln 2\<rparr>"
    by (simp add: calculateBolaParameters_def Let_def h MINIMUM_BUFFER_S_def
        MINIMUM_BUFFER_PER_BITRATE_LEVEL_S_def)
  then show ?thesis
    by (simp add: getInitialBolaState_def context_for_def player_config_def normalize_three_tier
        clearBolaStateOnSeek_def ladder3_created_def)
qed

lemma created_scores:
  "score_at ladder3_created (Some l) 0 = Some ((Vp ladder3_created + 10 - l) / 500000)"
  "score_at ladder3_created (Some l) 1 = Some ((Vp ladder3_created + 13 - l) / 1000000)"
  "score_at ladder3_created (Some l) 2 = Some ((Vp ladder3_created + 16 - l) / 2000000)"
proof -
  have p: "ln (2::real) \<noteq> 0" by simp
  show "score_at ladder3_created (Some l) 0 = Some ((Vp ladder3_created + 10 - l) / 500000)"
    using p by (simp add: score_at_def ladder3_created_def field_simps)
  show "score_at ladder3_created (Some l) 1 = Some ((Vp ladder3_created + 13 - l) / 1000000)"
    using p by (simp add: score_at_def ladder3_created_def field_simps)
  show "score_at ladder3_created (Some l) 2 = Some ((Vp ladder3_created + 16 - l) / 2000000)"
    using p by (simp add: score_at_def ladder3_created_def field_simps)
qed

lemma created_compare:
  fixes v l :: real
  shows "(v + 10 - l) / 500000 \<le> (v + 13 - l) / 1000000 \<longleftrightarrow> v + 7 \<le> l"
    and "(v + 13 - l) / 1000000 \<le> (v + 16 - l) / 2000000 \<longleftrightarrow> v + 10 \<le> l"
    and "(v + 10 - l) / 500000 \<le> (v + 16 - l) / 2000000 \<longleftrightarrow> v + 8 \<le> l"
  by (auto simp: field_simps)

lemma created_pass:
  "snd (scoring_pass ladder3_created (Some l) q0) =
     Some (if l < Vp ladder3_created + 7 then 0 else if l < Vp ladder3_created + 10 then 1 else 2)"
proof -
  have n: "[0..<length (bitrates ladder3_created)] = [0, 1, 2]"
    by (simp add: ladder3_created_def upt_rec)
  have s0: "score_step ladder3_created (Some l) (None, q0) 0 =
      (Some ((Vp ladder3_created + 10 - l) / 500000), Some 0)"
    by (simp add: score_step_def created_scores isNaN_def)
  have s1: "score_step ladder3_created (Some l) (Some ((Vp ladder3_created + 10 - l) / 500000), Some 0) 1 =
      (if Vp ladder3_created + 7 \<le> l then (Some ((Vp ladder3_created + 13 - l) / 1000000), Some 1)
       else (Some ((Vp ladder3_created + 10 - l) / 500000), Some 0))"
    by (simp add: score_step_def created_scores isNaN_def js_ge_def created_compare del: One_nat_def)
  have s2a: "score_step ladder3_created (Some l) (Some ((Vp ladder3_created + 13 - l) / 1000000), Some 1) 2 =
      (if Vp ladder3_created + 10 \<le> l then (Some ((Vp ladder3_created + 16 - l) / 2000000), Some 2)
       else (Some ((Vp ladder3_created + 13 - l) / 1000000), Some 1))"
    by (simp add: score_step_def created_scores isNaN_def js_ge_def created_compare del: One_nat_def)
  have s2b: "score_step ladder3_created (Some l) (Some ((Vp ladder3_created + 10 - l) / 500000), Some 0) 2 =
      (if Vp ladder3_created + 8 \<le> l then (Some ((Vp ladder3_created + 16 - l) / 2000000), Some 2)
       else (Some ((Vp ladder3_created + 10 - l) / 500000), Some 0))"
    by (simp add: score_step_def created_scores isNaN_def js_ge_def created_compare del: One_nat_def)
  show ?thesis
    unfolding scoring_pass_def n
    by (simp add: s0 s1 s2a s2b del: One_nat_def)
qed

lemma created_body_top:
  assumes "LABLevel v = Some l" "9 \<le> l - 6"
  shows "lab_body ladder3_created B 1000 4 v =
     \<lparr>quality = Some 2, bitrate = Some 2000000, prev_bitrate = bitrate v,
      LABLevel = Some (B - 4), maxIte = maxIte v - 1, iterations = Suc (iterations v)\<rparr>"
proof -
  have "snd (scoring_pass ladder3_created (Some l) (quality v)) = Some 2"
    using assms(2) Vp_created_bounds by (simp add: created_pass)
  then show ?thesis
    using assms(1)
    by (simp add: lab_body_def Let_def bitrate_of_def project_level_def ladder3_created_def)
qed

lemma created_body_middle:
  assumes "LABLevel v = Some l" "12 \<le> l" "l \<le> 14"
  shows "lab_body ladder3_created B 1000 4 v =
     \<lparr>quality = Some 1, bitrate = Some 1000000, prev_bitrate = bitrate v,
      LABLevel = Some B, maxIte = maxIte v - 1, iterations = Suc (iterations v)\<rparr>"
proof -
  have "snd (scoring_pass ladder3_created (Some l) (quality v)) = Some 1"
    using assms(2,3) Vp_created_bounds by (simp add: created_pass)
  then show ?thesis
    using assms(1)
    by (simp add: lab_body_def Let_def bitrate_of_def project_level_def ladder3_created_def
        del: One_nat_def)
qed

lemma created_body_bottom:
  assumes "LABLevel v = Some l" "l \<le> 11"
  shows "lab_body ladder3_created B 1000 4 v =
     \<lparr>quality = Some 0, bitrate = Some 500000, prev_bitrate = bitrate v,
      LABLevel = Some (B + 2), maxIte = maxIte v - 1, iterations = Suc (iterations v)\<rparr>"
proof -
  have "snd (scoring_pass ladder3_created (Some l) (quality v)) = Some 0"
    using assms(2) Vp_created_bounds by (simp add: created_pass)
  then show ?thesis
    using assms(1)
    by (simp add: lab_body_def Let_def bitrate_of_def project_level_def ladder3_created_def)
qed

lemma created_run_15:
  "lab_run ladder3_created 15 1000 4 =
     \<lparr>quality = Some 0, bitrate = Some 500000, prev_bitrate = Some 2000000,
      LABLevel = Some 17, maxIte = - 1, iterations = 4\<rparr>"
proof -
  let ?v0 = "lab_init ladder3_created 15"
  let ?v1 = "\<lparr>quality = Some 2, bitrate = Some 2000000, prev_bitrate = None,
      LABLevel = Some 11, maxIte = 2, iterations = 1\<rparr>"
  let ?v2 = "\<lparr>quality = Some 0, bitrate = Some 500000, prev_bitrate = Some 2000000,
      LABLevel = Some 17, maxIte = 1, iterations = 2\<rparr>"
  let ?v3 = "\<lparr>quality = Some 2, bitrate = Some 2000000, prev_bitrate = Some 500000,
      LABLevel = Some 11, maxIte = 0, iterations = 3\<rparr>"
  let ?v4 = "\<lparr>quality = Some 0, bitrate = Some 500000, prev_bitrate = Some 2000000,
      LABLevel = Some 17, maxIte = - 1, iterations = 4\<rparr>"
  have b0: "lab_body ladder3_created 15 1000 4 ?v0 = ?v1"
    using created_body_top [of ?v0 15 15] by (simp add: lab_init_def ladder3_created_def)
  have b1: "lab_body ladder3_created 15 1000 4 ?v1 = ?v2"
    using created_body_bottom [of ?v1 11 15] by simp
  have b2: "lab_body ladder3_created 15 1000 4 ?v2 = ?v3"
    using created_body_top [of ?v2 17 15] by simp
  have b3: "lab_body ladder3_created 15 1000 4 ?v3 = ?v4"
    using created_body_bottom [of ?v3 11 15] by simp
  have "lab_while ladder3_created 15 1000 4 ?v0 = lab_while ladder3_created 15 1000 4 ?v1"
    by (rule lab_while_step [OF _ b0]) (simp_all add: lab_continue_def isNaN_def lab_init_def)
  also have "\<dots> = lab_while ladder3_created 15 1000 4 ?v2"
    by (rule lab_while_step [OF _ b1]) (simp_all add: lab_continue_def isNaN_def)
  also have "\<dots> = lab_while ladder3_created 15 1000 4 ?v3"
    by (rule lab_while_step [OF _ b2]) (simp_all add: lab_continue_def isNaN_def)
  also have "\<dots> = ?v4"
    by (rule lab_while_break [OF _ b3]) (simp_all add: lab_continue_def isNaN_def)
  finally show ?thesis by (simp add: lab_run_def)
qed

lemma created_run_14:
  "lab_run ladder3_created 14 1000 4 =
     \<lparr>quality = Some 1, bitrate = Some 1000000, prev_bitrate = Some 1000000,
      LABLevel = Some 14, maxIte = 1, iterations = 2\<rparr>"
proof -
  let ?v0 = "lab_init ladder3_created 14"
  let ?v1 = "\<lparr>quality = Some 1, bitrate = Some 1000000, prev_bitrate = None,
      LABLevel = Some 14, maxIte = 2, iterations = 1\<rparr>"
  let ?v2 = "\<lparr>quality = Some 1, bitrate = Some 1000000, prev_bitrate = Some 1000000,
      LABLevel = Some 14, maxIte = 1, iterations = 2\<rparr>"
  have b0: "lab_body ladder3_created 14 1000 4 ?v0 = ?v1"
    using created_body_middle [of ?v0 14 14] by (simp add: lab_init_def ladder3_created_def)
  have b1: "lab_body ladder3_created 14 1000 4 ?v1 = ?v2"
    using created_body_middle [of ?v1 14 14] by simp
  have "lab_while ladder3_created 14 1000 4 ?v0 = lab_while ladder3_created 14 1000 4 ?v1"
    by (rule lab_while_step [OF _ b0]) (simp_all add: lab_continue_def isNaN_def lab_init_def)
  also have "\<dots> = lab_while ladder3_created 14 1000 4 ?v2"
    by (rule lab_while_step [OF _ b1]) (simp_all add: lab_continue_def isNaN_def)
  also have "\<dots> = ?v2"
    by (rule lab_while_stop) (simp add: lab_continue_def isNaN_def)
  finally show ?thesis by (simp add: lab_run_def)
qed

section \<open>The look-ahead loop\<close>



text \<open>
  The loop body runs at most \<open>bitrateCount + 1\<close> times: \<open>maxIte\<close> starts at
  \<open>bitrateCount\<close> and the loop breaks once it is negative.
\<close>

lemma lab_run_iterations_bound:
  "iterations (lab_run bs B T D) \<le> length (bitrates bs) + 1"
proof -
  have "0 \<le> maxIte (lab_init bs B)" by (simp add: lab_init_def)
  from lab_while_iterations [OF this, of bs B T D]
  show ?thesis by (simp add: lab_run_def lab_init_def)
qed

text \<open>
  Claim C4. The cap of the look-ahead loop is stated as \<open>ladderSize\<close> iterations. On the
  track state created for the three-tier ladder, at buffer level 15 s, throughput
  1000 kbit/s and segments of 4 s, the choice alternates between the top and the bottom
  tier and the loop body runs four times before the \<open>break\<close>.
\<close>

theorem lab_run_cap_exceeded:
  "getInitialBolaState player_config (context_for [500000, 1000000, 2000000] None) = Inr ladder3_created \<and>
   length (bitrates ladder3_created) = 3 \<and>
   iterations (lab_run ladder3_created 15 1000 4) = 4 \<and>
   getQualityFromBufferLevel ladder3_created 15 1000 4 = Some 0"
  by (simp add: three_tier_state created_run_15 getQualityFromBufferLevel_def)
     (simp add: ladder3_created_def)

section \<open>Monotonicity in the buffer level\<close>

text \<open>
  Claim C3, as stated, fails: on the track state created for the three-tier ladder, with
  throughput 1000 kbit/s and segments of 4 s, the look-ahead settles on tier 1 at a buffer
  level of 14 s, and at 15 s it alternates between tiers 2 and 0 until the cap and returns
  tier 0.
\<close>

theorem quality_not_monotone:
  "getInitialBolaState player_config (context_for [500000, 1000000, 2000000] None) = Inr ladder3_created \<and>
   1 < length (bitrates ladder3_created) \<and> (14::real) \<le> 15 \<and>
   getQualityFromBufferLevel ladder3_created 14 1000 4 = Some 1 \<and>
   getQualityFromBufferLevel ladder3_created 15 1000 4 = Some 0"
  by (simp add: three_tier_state created_run_14 created_run_15 getQualityFromBufferLevel_def)
     (simp add: ladder3_created_def)

lemma projected_antitone:
  assumes "ladder_ok bs" "0 < T" "0 \<le> D" "q1 \<le> q2" "q2 < length (bitrates bs)" "B1 \<le> B2"
  shows "projected bs B1 T D q2 \<le> projected bs B2 T D q1"
proof -
  have "bitrates bs ! q1 \<le> bitrates bs ! q2"
    using ladder_ok_less [OF assms(1), of q1 q2] assms(4,5) by (cases "q1 = q2") auto
  then have "bitrates bs ! q1 / T / 1000 \<le> bitrates bs ! q2 / T / 1000"
    using assms(2) by (simp add: divide_right_mono)
  then have "(1 - bitrates bs ! q2 / T / 1000) * D \<le> (1 - bitrates bs ! q1 / T / 1000) * D"
    using assms(3) by (intro mult_right_mono) simp_all
  then show ?thesis using assms(6) by (simp add: projected_def)
qed

text \<open>
  Claim C3, amended. On a well-formed ladder, with a positive throughput and a
  non-negative segment duration, the chosen quality does not decrease when the buffer
  level increases, provided both look-ahead loops end because the chosen bitrate
  repeated (the loop condition is false at the end) and not through the cap.
\<close>

theorem quality_monotone_when_converged:
  assumes "ladder_ok bs" "0 < throughput" "0 \<le> segmentDuration" "bufferLevel1 \<le> bufferLevel2"
    and "\<not> lab_continue (lab_run bs bufferLevel1 throughput segmentDuration)"
    and "\<not> lab_continue (lab_run bs bufferLevel2 throughput segmentDuration)"
  shows "\<exists>q1 q2. getQualityFromBufferLevel bs bufferLevel1 throughput segmentDuration = Some q1 \<and>
                 getQualityFromBufferLevel bs bufferLevel2 throughput segmentDuration = Some q2 \<and>
                 q1 \<le> q2"
proof -
  have init: "lab_consistent bs B throughput segmentDuration (lab_init bs B)"
    "lab_continue (lab_init bs B)" for B
    by (simp_all add: lab_consistent_def lab_init_def lab_continue_def isNaN_def)
  have f1: "lab_fixed bs bufferLevel1 throughput segmentDuration (lab_run bs bufferLevel1 throughput segmentDuration)"
    unfolding lab_run_def
    by (rule lab_while_fixed [OF assms(1) init(1)]) (use init(2) assms(5) in \<open>simp_all add: lab_run_def\<close>)
  have f2: "lab_fixed bs bufferLevel2 throughput segmentDuration (lab_run bs bufferLevel2 throughput segmentDuration)"
    unfolding lab_run_def
    by (rule lab_while_fixed [OF assms(1) init(1)]) (use init(2) assms(6) in \<open>simp_all add: lab_run_def\<close>)
  obtain q1 where q1: "q1 < length (bitrates bs)"
      "quality (lab_run bs bufferLevel1 throughput segmentDuration) = Some q1"
      "snd (scoring_pass bs (Some (projected bs bufferLevel1 throughput segmentDuration q1)) None) = Some q1"
    using f1 by (auto simp: lab_fixed_def)
  obtain q2 where q2: "q2 < length (bitrates bs)"
      "quality (lab_run bs bufferLevel2 throughput segmentDuration) = Some q2"
      "snd (scoring_pass bs (Some (projected bs bufferLevel2 throughput segmentDuration q2)) None) = Some q2"
    using f2 by (auto simp: lab_fixed_def)
  have "q1 \<le> q2"
  proof (rule ccontr)
    assume "\<not> q1 \<le> q2"
    then have "q2 \<le> q1" by simp
    then have "projected bs bufferLevel1 throughput segmentDuration q1
        \<le> projected bs bufferLevel2 throughput segmentDuration q2"
      by (rule projected_antitone [OF assms(1,2,3) _ q1(1) assms(4)])
    then have "q1 \<le> q2" by (rule pass_mono [OF assms(1) _ q1(3) q2(3)])
    with \<open>\<not> q1 \<le> q2\<close> show False by simp
  qed
  then show ?thesis using q1(2) q2(2) by (simp add: getQualityFromBufferLevel_def)
qed

theorem quality_monotone_when_converged_witness:
  "ladder_ok ladder3 \<and> (0::real) < 1000 \<and> (0::real) \<le> 4 \<and> (12::real) \<le> 19 \<and>
   \<not> lab_continue (lab_run ladder3 12 1000 4) \<and> \<not> lab_continue (lab_run ladder3 19 1000 4) \<and>
   (\<exists>q1 q2. getQualityFromBufferLevel ladder3 12 1000 4 = Some q1 \<and>
            getQualityFromBufferLevel ladder3 19 1000 4 = Some q2 \<and> q1 \<le> q2)"
proof -
  have ok: "ladder_ok ladder3" by (simp add: ladder_ok_def ladder3_def)
  have n: "(0::real) < 1000" "(0::real) \<le> 4" "(12::real) \<le> 19" by simp_all
  have c1: "\<not> lab_continue (lab_run ladder3 12 1000 4)" by code_simp
  have c2: "\<not> lab_continue (lab_run ladder3 19 1000 4)" by code_simp
  show ?thesis
    using ok n c1 c2 quality_monotone_when_converged [OF ok n c1 c2] by simp
qed

section \<open>Retargeting\<close>

text \<open>
  Claim C7. When the configured target buffer time equals the one cached in the track
  state, \<open>checkBolaStateStableBufferTime\<close> returns the track state as it was, every field
  unchanged.
\<close>

theorem retarget_unchanged_target:
  assumes "getStableBufferTime config = stableBufferTime s"
  shows "checkBolaStateStableBufferTime config s mediaType = Inr s"
  using assms by (simp add: checkBolaStateStableBufferTime_def)

theorem retarget_unchanged_target_witness:
  "getStableBufferTime player_config = stableBufferTime ladder3 \<and>
   checkBolaStateStableBufferTime player_config ladder3 ''video'' = Inr ladder3"
proof -
  have h: "getStableBufferTime player_config = stableBufferTime ladder3"
    by (simp add: player_config_def ladder3_def)
  show ?thesis using h retarget_unchanged_target [OF h, of "''video''"] by simp
qed

text \<open>
  Claim C8. When the configured target buffer time differs from the cached one and the
  cached \<open>Vp\<close> is not zero, the operation recomputes the parameters; if one of them
  differs from the cached value it stores the new target, the new parameters and the
  placeholder buffer
  \<open>max(0, ((bufferLevel + placeholderBuffer - 10) * newVp / oldVp + 10) - bufferLevel)\<close>,
  and if both are the cached values it leaves the state as it was.
\<close>

theorem retarget_changed_target:
  assumes "getStableBufferTime config \<noteq> stableBufferTime s"
    and "calculateBolaParameters (getStableBufferTime config) (bitrates s) (utilities s) = Some params"
    and "Vp s \<noteq> 0"
  shows "(params_Vp params \<noteq> Vp s \<or> params_gp params \<noteq> gp s \<longrightarrow>
            checkBolaStateStableBufferTime config s mediaType =
              Inr (s\<lparr>stableBufferTime := getStableBufferTime config,
                     Vp := params_Vp params,
                     gp := params_gp params,
                     placeholderBuffer :=
                       max 0 (((getCurrentBufferLevel config mediaType + placeholderBuffer s - 10)
                                 * params_Vp params / Vp s + 10)
                              - getCurrentBufferLevel config mediaType)\<rparr>)) \<and>
         (params_Vp params = Vp s \<and> params_gp params = gp s \<longrightarrow>
            checkBolaStateStableBufferTime config s mediaType = Inr s)"
  using assms by (simp add: checkBolaStateStableBufferTime_def Let_def MINIMUM_BUFFER_S_def)

theorem retarget_changed_target_witness:
  "getStableBufferTime retarget_config \<noteq> stableBufferTime ladder3 \<and>
   calculateBolaParameters (getStableBufferTime retarget_config) (bitrates ladder3) (utilities ladder3)
     = Some \<lparr>params_gp = 693 / 1000, params_Vp = 10000 / 693\<rparr> \<and>
   Vp ladder3 \<noteq> 0 \<and>
   checkBolaStateStableBufferTime retarget_config ladder3 ''video'' =
     Inr (ladder3\<lparr>stableBufferTime := 30, Vp := 10000 / 693, gp := 693 / 1000,
                  placeholderBuffer := 70 / 3\<rparr>) \<and>
   getStableBufferTime same_floor_config \<noteq> stableBufferTime ladder3 \<and>
   checkBolaStateStableBufferTime same_floor_config ladder3 ''video'' = Inr ladder3"
proof -
  have h1: "getStableBufferTime retarget_config \<noteq> stableBufferTime ladder3"
    by (simp add: retarget_config_def ladder3_def)
  have h2: "calculateBolaParameters (getStableBufferTime retarget_config) (bitrates ladder3) (utilities ladder3)
     = Some \<lparr>params_gp = 693 / 1000, params_Vp = 10000 / 693\<rparr>"
    by code_simp
  have h3: "Vp ladder3 \<noteq> 0" by (simp add: ladder3_def)
  have g1: "getStableBufferTime same_floor_config \<noteq> stableBufferTime ladder3"
    by (simp add: same_floor_config_def ladder3_def)
  have g2: "calculateBolaParameters (getStableBufferTime same_floor_config) (bitrates ladder3) (utilities ladder3)
     = Some \<lparr>params_gp = 231 / 100, params_Vp = 1000 / 231\<rparr>"
    by code_simp
  have r1: "checkBolaStateStableBufferTime retarget_config ladder3 ''video'' =
     Inr (ladder3\<lparr>stableBufferTime := 30, Vp := 10000 / 693, gp := 693 / 1000,
                  placeholderBuffer := 70 / 3\<rparr>)"
    using retarget_changed_target [OF h1 h2 h3, of "''video''"]
    by (simp add: ladder3_def retarget_config_def)
  have r2: "checkBolaStateStableBufferTime same_floor_config ladder3 ''video'' = Inr ladder3"
    using retarget_changed_target [OF g1 g2 h3, of "''video''"]
    by (simp add: ladder3_def)
  show ?thesis using h1 h2 h3 g1 r1 r2 by blast
qed

section \<open>The placeholder buffer\<close>

lemma retarget_placeholder:
  assumes "checkBolaStateStableBufferTime config s mediaType = Inr s'" "0 \<le> placeholderBuffer s"
  shows "0 \<le> placeholderBuffer s'"
  using assms
  by (auto simp: checkBolaStateStableBufferTime_def Let_def split: if_splits option.splits)

lemma reachable_has_parameters:
  assumes "track_reachable s"
  shows "highestUtilityIndex (utilities s) \<noteq> 0"
  using assms
proof (induction rule: track_reachable.induct)
  case (created config ctx s)
  then show ?case
    by (auto simp: getInitialBolaState_def clearBolaStateOnSeek_def calculateBolaParameters_def Let_def
        split: option.splits if_splits)
next
  case (created_abandon config ctx s)
  then show ?case
    by (auto simp: getInitialBolaState_abandon_def clearBolaStateOnSeek_def calculateBolaParameters_def
        Let_def split: option.splits if_splits)
next
  case (seek s)
  then show ?case by (simp add: clearBolaStateOnSeek_def)
next
  case (retarget s config mediaType s')
  then show ?case
    by (auto simp: checkBolaStateStableBufferTime_def Let_def split: if_splits option.splits)
next
  case (decided s q)
  then show ?case by simp
qed

text \<open>On a track state that the rules can produce, a retarget never throws.\<close>

lemma reachable_retarget_returns:
  assumes "track_reachable s"
  shows "\<exists>s'. checkBolaStateStableBufferTime config s mediaType = Inr s'"
proof -
  have "calculateBolaParameters t (bitrates s) (utilities s) \<noteq> None" for t
    using reachable_has_parameters [OF assms] by (simp add: calculateBolaParameters_def Let_def)
  then obtain params where
    "calculateBolaParameters (getStableBufferTime config) (bitrates s) (utilities s) = Some params"
    by blast
  then show ?thesis
    by (simp add: checkBolaStateStableBufferTime_def Let_def)
qed

text \<open>
  On such a state the parameters are positive, the lowest utility is 1 and there is one
  utility per bitrate, so the quotient \<open>newVp / oldVp\<close> of a retarget has a divisor that
  is not zero.
\<close>

lemma normalize_props:
  "length (normalize us) = length us" "us \<noteq> [] \<Longrightarrow> normalize us ! 0 = 1"
  by (cases us; simp add: normalize_def)+

lemma calculateBolaParameters_positive:
  assumes "calculateBolaParameters t bs us = Some params" "length bs = length us" "us ! 0 = 1"
  shows "0 < params_gp params \<and> 0 < params_Vp params"
proof -
  have h: "highestUtilityIndex us \<noteq> 0"
    using assms(1) by (auto simp: calculateBolaParameters_def Let_def split: if_splits)
  have g: "params_gp params = (us ! highestUtilityIndex us - 1) /
                            (max t (10 + 2 * real (length bs)) / 10 - 1)"
    and v: "params_Vp params = 10 / params_gp params"
    using assms(1) h
    by (auto simp: calculateBolaParameters_def Let_def MINIMUM_BUFFER_S_def
        MINIMUM_BUFFER_PER_BITRATE_LEVEL_S_def)
  have "0 < params_gp params"
    unfolding g by (rule calculateBolaParameters_divisors(2) [OF assms(2,3) h])
  then show ?thesis using v by simp
qed

lemma created_invariant:
  assumes "calculateBolaParameters t bs (normalize (utilitiesFromBitrates bs)) = Some params"
  shows "0 < params_gp params \<and> 0 < params_Vp params \<and>
         normalize (utilitiesFromBitrates bs) ! 0 = 1 \<and>
         length bs = length (normalize (utilitiesFromBitrates bs))"
proof -
  have "highestUtilityIndex (normalize (utilitiesFromBitrates bs)) \<noteq> 0"
    using assms by (auto simp: calculateBolaParameters_def Let_def split: if_splits)
  then have ne: "utilitiesFromBitrates bs \<noteq> []"
    by (auto simp: normalize_def highestUtilityIndex_Nil)
  have l: "length bs = length (normalize (utilitiesFromBitrates bs))"
    by (simp add: normalize_props utilitiesFromBitrates_def)
  have z: "normalize (utilitiesFromBitrates bs) ! 0 = 1"
    using ne by (rule normalize_props(2))
  show ?thesis using calculateBolaParameters_positive [OF assms l z] l z by simp
qed

lemma reachable_invariant:
  assumes "track_reachable s"
  shows "0 < gp s \<and> 0 < Vp s \<and> utilities s ! 0 = 1 \<and> length (bitrates s) = length (utilities s)"
  using assms
proof (induction rule: track_reachable.induct)
  case (created config ctx s)
  then show ?case
    by (auto simp: getInitialBolaState_def clearBolaStateOnSeek_def Let_def
        split: option.splits dest!: created_invariant)
next
  case (created_abandon config ctx s)
  then show ?case
    by (auto simp: getInitialBolaState_abandon_def clearBolaStateOnSeek_def Let_def
        split: option.splits dest!: created_invariant)
next
  case (seek s)
  then show ?case by (simp add: clearBolaStateOnSeek_def)
next
  case (retarget s config mediaType s')
  then show ?case
    by (auto simp: checkBolaStateStableBufferTime_def Let_def split: if_splits option.splits
        dest!: calculateBolaParameters_positive)
next
  case (decided s q)
  then show ?case by simp
qed

lemma three_tier_created:
  "\<exists>s. getInitialBolaState player_config (context_for [500000, 1000000, 2000000] None) = Inr s"
  using three_tier_state by blast

text \<open>
  Claim C10. The placeholder buffer of every track state that the rules can produce is
  non-negative: it is 0 at creation and after the clearing on seek, a retarget sets it to
  a maximum with 0 or leaves it, and the assignment of the last quality does not touch it.
\<close>

theorem placeholderBuffer_nonnegative:
  assumes "track_reachable s"
  shows "0 \<le> placeholderBuffer s"
  using assms
proof (induction rule: track_reachable.induct)
  case (created config ctx s)
  then show ?case
    by (auto simp: getInitialBolaState_def clearBolaStateOnSeek_def Let_def split: option.splits)
next
  case (created_abandon config ctx s)
  then show ?case
    by (auto simp: getInitialBolaState_abandon_def clearBolaStateOnSeek_def Let_def split: option.splits)
next
  case (seek s)
  then show ?case by (simp add: clearBolaStateOnSeek_def)
next
  case (retarget s config mediaType s')
  then show ?case using retarget_placeholder by blast
next
  case (decided s q)
  then show ?case by simp
qed

theorem placeholderBuffer_nonnegative_witness:
  "\<exists>s s'. getInitialBolaState player_config (context_for [500000, 1000000, 2000000] None) = Inr s \<and>
          checkBolaStateStableBufferTime retarget_config s ''video'' = Inr s' \<and>
          track_reachable s' \<and> 0 \<le> placeholderBuffer s'"
proof -
  obtain s where s: "getInitialBolaState player_config (context_for [500000, 1000000, 2000000] None) = Inr s"
    using three_tier_created by blast
  have r: "track_reachable s" using s by (rule track_reachable.created)
  obtain s' where s': "checkBolaStateStableBufferTime retarget_config s ''video'' = Inr s'"
    using reachable_retarget_returns [OF r] by blast
  have r': "track_reachable s'" using r s' by (rule track_reachable.retarget)
  show ?thesis using s s' r' placeholderBuffer_nonnegative [OF r'] by blast
qed

section \<open>The sample rules return no quality\<close>

text \<open>
  \<open>getQualityFromBufferLevel\<close> of the sample rules returns no quality: on a ladder
  with an entry it throws, and on the empty ladder its loop does not end.
\<close>

lemma sample_throws:
  assumes "bitrates state \<noteq> []"
  shows "getQualityFromBufferLevel_sample state B T D = Some (Inl ReferenceError)"
proof -
  have "lab_continue (lab_init state B)" by (simp add: lab_continue_def lab_init_def isNaN_def)
  then have "sample_while state B T D (lab_init state B) = Some (Inl ReferenceError)"
    using assms by (subst sample_while.simps) simp
  then show ?thesis by (simp add: getQualityFromBufferLevel_sample_def)
qed

lemma sample_while_never_returns:
  assumes r: "sample_while state B T D v = Some y"
  shows "\<not> (bitrates state = [] \<and> quality v = None \<and> bitrate v = None)"
proof (rule sample_while.raw_induct
    [where P = "\<lambda>state B T D v y. \<not> (bitrates state = [] \<and> quality v = None \<and> bitrate v = None)",
     OF _ r], goal_cases)
  case (1 loop state B T D v y)
  show ?case
  proof
    assume a: "bitrates state = [] \<and> quality v = None \<and> bitrate v = None"
    then have c: "lab_continue v" by (simp add: lab_continue_def isNaN_def)
    have b: "quality (sample_body state B T D v) = None" "bitrate (sample_body state B T D v) = None"
      using a by (simp_all add: sample_body_def bitrate_of_def Let_def)
    have l: "loop state B T D (sample_body state B T D v) = Some y"
      using "1"(2) a c by simp
    from "1"(1) [OF l] show False using a b by simp
  qed
qed

lemma sample_diverges:
  assumes "bitrates state = []"
  shows "getQualityFromBufferLevel_sample state B T D = None"
proof -
  have "sample_while state B T D (lab_init state B) = None"
  proof (cases "sample_while state B T D (lab_init state B)")
    case None
    then show ?thesis .
  next
    case (Some y)
    from sample_while_never_returns [OF this] show ?thesis
      using assms by (simp add: lab_init_def)
  qed
  then show ?thesis by (simp add: getQualityFromBufferLevel_sample_def)
qed

section \<open>Exceptions of the entry points\<close>

lemmas abandon_defs =
  shouldAbandon_def shouldAbandon_progress_def shouldAbandon_evaluate_def
  setFragmentRequestDict_def lookup_fragment_def put_fragment_def delete_fragment_def is_abandoned_def
  storeLastRequestThroughputByType_def getBolaState_abandon_def
  empty_fragmentInfo_def SwitchRequest_create_named_def empty_reason_def
  js_lt_def js_round_def toFixed2_def
  ABANDON_MULTIPLIER_def GRACE_TIME_THRESHOLD_def MIN_LENGTH_TO_AVERAGE_def

text \<open>
  Claim C1 states that neither entry point propagates an exception. On a track with a
  single bitrate, \<open>getMaxIndex\<close> of the switch rule creates the track state, gets
  \<open>null\<close> from \<open>calculateBolaParameters\<close> and throws on \<open>params.Vp\<close>; the abandon
  rule tests \<open>params\<close> at the same place. On the fifth notification of the slow
  download, \<open>shouldAbandon\<close> reaches the evaluation of an abandonment and throws on the
  read of \<open>bolaStateDict\<close>.
\<close>

theorem entry_points_throw:
  "snd (getMaxIndex player_config Map.empty (Some (context_for [500000] None))) = Inl TypeError \<and>
   notifications player_config initial_rule slow_download =
     [Inr SwitchRequest_create_named, Inr SwitchRequest_create_named,
      Inr SwitchRequest_create_named, Inr SwitchRequest_create_named, Inl TypeError]"
proof -
  have a: "snd (getMaxIndex player_config Map.empty (Some (context_for [500000] None))) = Inl TypeError"
    by (simp add: getMaxIndex_def context_for_def getBolaState_def getInitialBolaState_def
        utilitiesFromBitrates_def normalize_def calculateBolaParameters_def highestUtilityIndex_def
        SwitchRequest_create_def Let_def)
  have b: "notifications player_config initial_rule slow_download =
     [Inr SwitchRequest_create_named, Inr SwitchRequest_create_named,
      Inr SwitchRequest_create_named, Inr SwitchRequest_create_named, Inl TypeError]"
    by (simp add: slow_download_def progress_at_def context_for_def player_config_def initial_rule_def
        reset_def abandon_defs Let_def)
  show ?thesis using a b by simp
qed

text \<open>
  With more than one bitrate and a throughput estimate, \<open>getMaxIndex\<close> creates the
  track state, selects a quality and throws on the read of \<open>switchRequest.PRIORITY\<close>.
\<close>

lemma getMaxIndex_decision_throws:
  "getMaxIndex player_config Map.empty (Some (context_for [500000, 1000000, 2000000] None)) =
     (Map.empty(''video'' \<mapsto> ladder3_created), Inl TypeError)"
proof -
  let ?ctx = "context_for [500000, 1000000, 2000000] None"
  have f: "getMediaInfo ?ctx = Some \<lparr>bitrateList = [500000, 1000000, 2000000]\<rparr>"
    "getMediaType ?ctx = Some ''video''"
    "getScheduleController ?ctx = Some ()"
    "getStreamInfo ?ctx = Some (Some \<lparr>stream_id = ''main'', isDynamic = False\<rparr>)"
    "getAbrController ?ctx = Some \<lparr>getAverageThroughput = (\<lambda>type dynamic. Some 1000),
                               getAverageLatency = (\<lambda>type. Some 50)\<rparr>"
    "useBufferOccupancyABR ?ctx = Some True"
    "getRepresentationInfo ?ctx = Some \<lparr>fragmentDuration = 4, quality_rep = 2\<rparr>"
    by (simp_all add: context_for_def)
  have b: "getBolaState player_config Map.empty ?ctx = Inr (ladder3_created, Map.empty(''video'' \<mapsto> ladder3_created))"
    by (simp add: getBolaState_def f three_tier_state)
  show ?thesis
    by (simp add: getMaxIndex_def f b Let_def)
qed

section \<open>Abandon decisions\<close>

text \<open>
  No call of \<open>shouldAbandon\<close> commits an abandon decision, whatever the state of the
  rule: the only branch that could ends in an exception before it writes the decision.
\<close>

lemma nc_Inl: "\<not> abandon_committed (snd (x, Inl e))"
  by (simp add: abandon_committed_def)

lemma nc_if:
  "\<not> abandon_committed (snd a) \<Longrightarrow> \<not> abandon_committed (snd b) \<Longrightarrow>
   \<not> abandon_committed (snd (if c then a else b))"
  by simp

lemma nc_let: "(\<And>x. \<not> abandon_committed (snd (f x))) \<Longrightarrow> \<not> abandon_committed (snd (Let t f))"
  by (simp add: Let_def)

lemma nc_option:
  "\<not> abandon_committed (snd a) \<Longrightarrow> (\<And>x. \<not> abandon_committed (snd (f x))) \<Longrightarrow>
   \<not> abandon_committed (snd (case_option a f z))"
  by (cases z) simp_all

lemma nc_sum:
  "(\<And>x. \<not> abandon_committed (snd (f x))) \<Longrightarrow> (\<And>x. \<not> abandon_committed (snd (g x))) \<Longrightarrow>
   \<not> abandon_committed (snd (case_sum f g z))"
  by (cases z) simp_all

lemma nc_prod:
  "(\<And>x y. \<not> abandon_committed (snd (f x y))) \<Longrightarrow> \<not> abandon_committed (snd (case_prod f z))"
  by (cases z) simp

lemmas nc_rules = nc_Inl nc_if nc_let nc_option nc_sum nc_prod

lemma evaluate_no_commit:
  assumes "\<not> abandon_committed (Inr d)"
  shows "\<not> abandon_committed (snd (shouldAbandon_evaluate config rule ctx mediaType i representationInfo f samples d))"
  unfolding shouldAbandon_evaluate_def
  by (intro nc_rules) (use assms in simp_all)

lemma progress_no_commit:
  assumes "\<not> abandon_committed (Inr d)"
  shows "\<not> abandon_committed (snd (shouldAbandon_progress config now rule ctx mediaType req i representationInfo d))"
  unfolding shouldAbandon_progress_def
  by (intro nc_rules evaluate_no_commit) (use assms in simp_all)

lemma shouldAbandon_no_commit:
  "\<not> abandon_committed (snd (shouldAbandon config now rule ctx))"
proof -
  have d: "\<not> abandon_committed (Inr SwitchRequest_create_named)"
    by (simp add: abandon_committed_def SwitchRequest_create_named_def)
  show ?thesis
    unfolding shouldAbandon_def Let_def
    by (intro nc_rules progress_no_commit) (use d in simp_all)
qed

lemma notifications_no_commit:
  "r \<in> set (notifications config rule ns) \<Longrightarrow> \<not> abandon_committed r"
proof (induction ns arbitrary: rule)
  case Nil
  then show ?case by simp
next
  case (Cons n ns)
  obtain now ctx where n: "n = (now, ctx)" by (cases n)
  show ?case using Cons shouldAbandon_no_commit [of config now rule ctx] by (auto simp: n)
qed

text \<open>
  The two guards that precede that branch: for a request at quality index 0, and for a
  fragment id that is in \<open>abandonDict\<close>, the evaluation returns the decision it was
  given, which asks for no change.
\<close>

lemma lowest_quality_keeps_request:
  "quality_rep representationInfo = 0 \<Longrightarrow>
   snd (shouldAbandon_evaluate config rule ctx mediaType i representationInfo f samples d) = Inr d"
  by (simp add: shouldAbandon_evaluate_def Let_def)

lemma abandoned_keeps_request:
  "is_abandoned rule (fragment_id f) \<Longrightarrow>
   snd (shouldAbandon_evaluate config rule ctx mediaType i representationInfo f samples d) = Inr d"
  by (cases "fragment_id f") (simp_all add: shouldAbandon_evaluate_def Let_def is_abandoned_def put_fragment_def)

text \<open>
  Claim C9. Over any sequence of progress notifications, and for every fragment id, at
  most one notification for that id commits an abandon decision, and no notification
  whose current quality index is 0 commits one.
\<close>

theorem abandon_once_and_never_at_lowest:
  "length (filter (\<lambda>(n, r). abandon_committed r \<and> notified_fragment n = Some f)
             (zip ns (notifications config rule ns))) \<le> 1 \<and>
   filter (\<lambda>(n, r). abandon_committed r \<and> notified_quality n = Some 0)
     (zip ns (notifications config rule ns)) = []"
proof -
  have "\<not> abandon_committed r" if "(n, r) \<in> set (zip ns (notifications config rule ns))" for n r
    using that notifications_no_commit [of r config rule ns] by (auto dest: set_zip_rightD)
  then have "filter (\<lambda>(n, r). abandon_committed r \<and> P n) (zip ns (notifications config rule ns)) = []" for P
    by (auto simp: filter_empty_conv)
  then show ?thesis by simp
qed

end
